theory Spec2Isabelle
  imports Main "HOL-Library.Sublist" "HOL-Library.Word"
begin

section \<open>Strings and paths\<close>

text \<open>
  A Go \<open>string\<close> is a sequence of bytes; it is modelled as \<^typ>\<open>string\<close>, a list of
  8-bit characters. The server is modelled on a Unix host: the path separator of
  \<open>path/filepath\<close> is \<open>/\<close>, there is no volume name, and \<open>filepath.ToSlash\<close> and
  \<open>filepath.FromSlash\<close> leave a path as it is.
\<close>

definition Separator :: char where
  "Separator = CHR ''/''"

text \<open>\<open>strings.TrimPrefix(s, prefix)\<close>: \<open>s\<close> without the prefix when it starts with it.\<close>

definition strings_TrimPrefix :: "string \<Rightarrow> string \<Rightarrow> string" where
  "strings_TrimPrefix s pre = (if prefix pre s then drop (length pre) s else s)"

text \<open>\<open>strings.Join(elems, "/")\<close>.\<close>

fun strings_Join :: "string list \<Rightarrow> string" where
  "strings_Join [] = []"
| "strings_Join [e] = e"
| "strings_Join (e # es) = e @ Separator # strings_Join es"

text \<open>
  The elements of a path: the maximal separator-free runs between separators
  (what \<open>strings.Split(path, "/")\<close> returns; never the empty list).
\<close>

fun elements :: "string \<Rightarrow> string list" where
  "elements [] = [[]]"
| "elements (c # cs) =
     (if c = Separator then [] # elements cs
      else (case elements cs of [] \<Rightarrow> [[c]] | e # es \<Rightarrow> (c # e) # es))"

text \<open>
  \<open>filepath.Clean\<close> reads the path byte by byte and writes the result into a
  buffer \<open>out\<close>; \<open>dotdot\<close> is the length of the buffer below which a \<open>..\<close> must not
  remove anything (the leading separator of a rooted path, or a leading run of
  \<open>..\<close> elements).
  \<^verbatim>\<open>
  for r < n {
    switch {
    case os.IsPathSeparator(path[r]):
      r++
    case path[r] == '.' && (r+1 == n || os.IsPathSeparator(path[r+1])):
      r++
    case path[r] == '.' && path[r+1] == '.' && (r+2 == n || os.IsPathSeparator(path[r+2])):
      r += 2
      switch {
      case out.w > dotdot:
        out.w--
        for out.w > dotdot && !os.IsPathSeparator(out.index(out.w)) { out.w-- }
      case !rooted:
        if out.w > 0 { out.append(Separator) }
        out.append('.'); out.append('.')
        dotdot = out.w
      }
    default:
      if rooted && out.w != 1 || !rooted && out.w != 0 { out.append(Separator) }
      for ; r < n && !os.IsPathSeparator(path[r]); r++ { out.append(path[r]) }
    }
  }
  \<close>
  \<open>element_ends cs\<close> says that the rest \<open>cs\<close> of the path is empty or starts with a
  separator. \<open>backtrack\<close> is the inner loop of the \<open>..\<close> case: it drops the last
  byte, and goes on while the buffer is longer than \<open>dotdot\<close> and the byte just
  dropped is not a separator.
\<close>

definition element_ends :: "string \<Rightarrow> bool" where
  "element_ends cs = (case cs of [] \<Rightarrow> True | c # _ \<Rightarrow> c = Separator)"

function backtrack :: "nat \<Rightarrow> string \<Rightarrow> string" where
  "backtrack dotdot out =
     (if length (butlast out) > dotdot \<and> last out \<noteq> Separator
      then backtrack dotdot (butlast out) else butlast out)"
  by pat_completeness auto
termination
  by (relation "measure (\<lambda>(dotdot, out). length out)") auto

declare backtrack.simps [simp del]

function clean_loop :: "bool \<Rightarrow> string \<Rightarrow> nat \<Rightarrow> string \<Rightarrow> string" where
  "clean_loop rooted out dotdot [] = out"
| "clean_loop rooted out dotdot (c # cs) =
     (if c = Separator then clean_loop rooted out dotdot cs
      else if c = CHR ''.'' \<and> element_ends cs then clean_loop rooted out dotdot cs
      else if c = CHR ''.'' \<and> take 1 cs = ''.'' \<and> element_ends (tl cs) then
        (if length out > dotdot then clean_loop rooted (backtrack dotdot out) dotdot (tl cs)
         else if \<not> rooted then
           clean_loop rooted ((if out \<noteq> [] then out @ [Separator] else out) @ ''..'')
             (length ((if out \<noteq> [] then out @ [Separator] else out) @ ''..'')) (tl cs)
         else clean_loop rooted out dotdot (tl cs))
      else
        clean_loop rooted
          ((if (rooted \<and> length out \<noteq> 1) \<or> (\<not> rooted \<and> length out \<noteq> 0)
            then out @ [Separator] else out)
           @ takeWhile (\<lambda>x. x \<noteq> Separator) (c # cs))
          dotdot (dropWhile (\<lambda>x. x \<noteq> Separator) (c # cs)))"
  by pat_completeness auto
termination
proof (relation "measure (\<lambda>(rooted, out, dotdot, path). length path)", goal_cases)
  case 1
  show ?case by simp
next
  case (7 rooted out dotdot c cs)
  have "length (dropWhile (\<lambda>x. x \<noteq> Separator) cs) \<le> length cs"
    by (rule length_dropWhile_le)
  with 7 show ?case by simp
qed simp_all

declare clean_loop.simps [simp del]

text \<open>
  The empty path is cleaned to \<open>.\<close>. A rooted path starts with the separator in
  the buffer, \<open>r\<close> and \<open>dotdot\<close> at 1; an empty result becomes \<open>.\<close>.
\<close>

definition filepath_Clean :: "string \<Rightarrow> string" where
  "filepath_Clean path =
     (case path of
        [] \<Rightarrow> ''.''
      | c # cs \<Rightarrow>
          (let out = (if c = Separator then clean_loop True [Separator] 1 cs
                      else clean_loop False [] 0 path)
           in if out = [] then ''.'' else out))"

text \<open>
  The same function told element by element, for the proofs: the buffer is the
  list of the elements kept so far, last one first.
  \<^item> an empty element (two separators in a row, a trailing separator) is skipped;
  \<^item> a \<open>.\<close> element is skipped;
  \<^item> a \<open>..\<close> element removes the last element when that is not itself a \<open>..\<close>;
    when nothing can be removed and the path is not rooted, the \<open>..\<close> is kept;
    when the path is rooted it is dropped;
  \<^item> any other element is kept.
  The result is the leading separator of a rooted path followed by the kept
  elements with one separator between them, and \<open>.\<close> when that is empty.
  \<open>render\<close> is the byte buffer for a list of kept elements, \<open>dotdots\<close> its \<open>..\<close>
  elements, and \<open>buffer\<close> relates the state of the byte loop to a list of kept
  elements.
\<close>

definition can_backtrack :: "string list \<Rightarrow> bool" where
  "can_backtrack out = (case out of [] \<Rightarrow> False | e # _ \<Rightarrow> e \<noteq> ''..'')"

definition clean_element :: "bool \<Rightarrow> string list \<Rightarrow> string \<Rightarrow> string list" where
  "clean_element rooted out e =
     (if e = [] then out
      else if e = ''.'' then out
      else if e = ''..'' then
        (if can_backtrack out then tl out
         else if \<not> rooted then ''..'' # out
         else out)
      else e # out)"

definition is_rooted :: "string \<Rightarrow> bool" where
  "is_rooted path = (case path of [] \<Rightarrow> False | c # _ \<Rightarrow> c = Separator)"

definition clean_elements :: "string \<Rightarrow> string" where
  "clean_elements path =
     (let rooted = is_rooted path;
          out = foldl (clean_element rooted) [] (elements path);
          s = (if rooted then [Separator] else []) @ strings_Join (rev out)
      in if s = [] then ''.'' else s)"

fun kept :: "string list \<Rightarrow> bool" where
  "kept [] = True"
| "kept (e # out) =
     (e \<noteq> [] \<and> e \<noteq> ''.'' \<and> (if e = ''..'' then set out \<subseteq> {''..''} else True) \<and> kept out)"

definition render :: "bool \<Rightarrow> string list \<Rightarrow> string" where
  "render rooted out = (if rooted then [Separator] else []) @ strings_Join (rev out)"

definition dotdots :: "string list \<Rightarrow> string list" where
  "dotdots out = filter (\<lambda>e. e = ''..'') out"

definition buffer :: "bool \<Rightarrow> string list \<Rightarrow> string \<Rightarrow> nat \<Rightarrow> bool" where
  "buffer rooted st out dd =
     (kept st \<and> (\<forall>e \<in> set st. Separator \<notin> set e) \<and> (rooted \<longrightarrow> ''..'' \<notin> set st)
      \<and> out = render rooted st \<and> dd = length (render rooted (dotdots st)))"

text \<open>
  \<open>filepath.Join(elem...)\<close>: the arguments from the first non-empty one on, joined by
  separators and cleaned; the empty string when all are empty.
\<close>

fun filepath_Join :: "string list \<Rightarrow> string" where
  "filepath_Join [] = []"
| "filepath_Join (e # es) =
     (if e \<noteq> [] then filepath_Clean (strings_Join (e # es)) else filepath_Join es)"

text \<open>
  \<open>filepath.Dir(path)\<close>: everything up to and including the last separator, cleaned.
\<close>

definition filepath_Dir :: "string \<Rightarrow> string" where
  "filepath_Dir path =
     filepath_Clean (rev (dropWhile (\<lambda>c. c \<noteq> Separator) (rev path)))"

definition filepath_ToSlash :: "string \<Rightarrow> string" where
  "filepath_ToSlash path = path"

section \<open>The path resolver of the request handler\<close>

text \<open>
  The first three statements of the handler, after the request log line:
  \<^verbatim>\<open>
  path := strings.TrimPrefix(reqPath, "/")
  cleanedPath := filepath.Clean(path) // Prevent path traversal
  fullPath := filepath.Join(rootDir, cleanedPath)
  \<close>
\<close>

definition cleanedPath :: "string \<Rightarrow> string" where
  "cleanedPath reqPath = filepath_Clean (strings_TrimPrefix reqPath ''/'')"

definition fullPath :: "string \<Rightarrow> string \<Rightarrow> string" where
  "fullPath rootDir reqPath = filepath_Join [rootDir, cleanedPath reqPath]"

section \<open>Escaping\<close>

definition byte_in :: "nat \<Rightarrow> nat \<Rightarrow> char \<Rightarrow> bool" where
  "byte_in lo hi c = (lo \<le> (of_char c :: nat) \<and> (of_char c :: nat) \<le> hi)"

definition is_lower :: "char \<Rightarrow> bool" where
  "is_lower c = byte_in 97 122 c"

definition is_upper :: "char \<Rightarrow> bool" where
  "is_upper c = byte_in 65 90 c"

definition is_digit :: "char \<Rightarrow> bool" where
  "is_digit c = byte_in 48 57 c"

subsection \<open>\<open>net/url\<close>: \<open>url.PathEscape\<close>\<close>

text \<open>
  \<open>url.PathEscape(s)\<close> is \<open>escape(s, encodePathSegment)\<close>. \<open>shouldEscape\<close> in that mode:
  letters and digits are kept; so are \<open>- _ . ~\<close>; of the reserved characters
  \<open>$ & + , / : ; = ? @\<close> only \<open>/ ; , ?\<close> are escaped; every other byte is escaped.
  An escaped byte \<open>c\<close> is written as \<open>%\<close>, \<open>upperhex[c>>4]\<close>, \<open>upperhex[c&15]\<close>.
\<close>

definition shouldEscape :: "char \<Rightarrow> bool" where
  "shouldEscape c =
     (if is_lower c \<or> is_upper c \<or> is_digit c then False
      else if c \<in> set ''-_.~'' then False
      else if c \<in> set ''$&+,/:;=?@'' then c \<in> set ''/;,?''
      else True)"

definition upperhex :: string where
  "upperhex = ''0123456789ABCDEF''"

definition escape_byte :: "char \<Rightarrow> string" where
  "escape_byte c =
     [CHR ''%'', upperhex ! ((of_char c :: nat) div 16), upperhex ! ((of_char c :: nat) mod 16)]"

definition url_PathEscape :: "string \<Rightarrow> string" where
  "url_PathEscape s = concat (map (\<lambda>c. if shouldEscape c then escape_byte c else [c]) s)"

text \<open>
  \<open>url.PathUnescape\<close>, the inverse that a client applies: \<open>%XX\<close> becomes the byte
  with that hexadecimal code, any other byte stands for itself, and a \<open>%\<close> that is
  not followed by two hexadecimal digits is an error.
\<close>

definition ishex :: "char \<Rightarrow> bool" where
  "ishex c = (is_digit c \<or> byte_in 97 102 c \<or> byte_in 65 70 c)"

definition unhex :: "char \<Rightarrow> nat" where
  "unhex c =
     (if is_digit c then of_char c - 48
      else if byte_in 97 102 c then of_char c - 97 + 10
      else if byte_in 65 70 c then of_char c - 65 + 10
      else 0)"

fun url_PathUnescape :: "string \<Rightarrow> string option" where
  "url_PathUnescape [] = Some []"
| "url_PathUnescape (c # cs) =
     (if c = CHR ''%'' then
        (case cs of
           h # l # rest \<Rightarrow>
             if ishex h \<and> ishex l
             then map_option ((#) (char_of (unhex h * 16 + unhex l))) (url_PathUnescape rest)
             else None
         | _ \<Rightarrow> None)
      else map_option ((#) c) (url_PathUnescape cs))"

subsection \<open>\<open>html\<close>: \<open>html.EscapeString\<close>\<close>

text \<open>
  \<open>html.EscapeString\<close> replaces the five characters \<open>& ' < > "\<close> by
  \<open>&amp; &#39; &lt; &gt; &#34;\<close>.
\<close>

definition html_escape_byte :: "char \<Rightarrow> string" where
  "html_escape_byte c =
     (if c = CHR ''&'' then ''&amp;''
      else if c = CHR 0x27 then ''&#39;''
      else if c = CHR ''<'' then ''&lt;''
      else if c = CHR ''>'' then ''&gt;''
      else if c = CHR 0x22 then ''&#34;''
      else [c])"

definition html_EscapeString :: "string \<Rightarrow> string" where
  "html_EscapeString s = concat (map html_escape_byte s)"

subsection \<open>\<open>html/template\<close>: the escapers added to each action\<close>

text \<open>
  \<open>html/template\<close> rewrites every action of a template according to the context
  it stands in. The fields of the listing data are plain Go strings, so each of
  them is escaped again by the template, whatever \<open>listDir\<close> did before:
  \<^item> in an element's text (the \<open>h1\<close> heading, the entry names):
    \<open>htmlEscaper\<close>, that is \<open>htmlReplacer\<close> with \<open>htmlReplacementTable\<close>;
  \<^item> in the \<open>title\<close> element (RCDATA): \<open>rcdataEscaper\<close>, which for a plain string
    is \<open>htmlReplacer\<close> with \<open>htmlReplacementTable\<close> as well (the table without
    \<open>&\<close> is used only for content of type \<open>template.HTML\<close>);
  \<^item> in the quoted \<open>href\<close> attribute: \<open>urlFilter\<close>, then \<open>urlNormalizer\<close>, then
    \<open>attrEscaper\<close>.
  The table only has entries for ASCII bytes, and \<open>htmlReplacer\<close> is called with
  \<open>badRunes = true\<close>, so it works byte by byte.
\<close>

definition htmlReplacementTable :: "char \<Rightarrow> string" where
  "htmlReplacementTable c =
     (if c = CHR 0x00 then [CHR 0xEF, CHR 0xBF, CHR 0xBD]
      else if c = CHR 0x22 then ''&#34;''
      else if c = CHR ''&'' then ''&amp;''
      else if c = CHR 0x27 then ''&#39;''
      else if c = CHR ''+'' then ''&#43;''
      else if c = CHR ''<'' then ''&lt;''
      else if c = CHR ''>'' then ''&gt;''
      else [c])"

definition htmlEscaper :: "string \<Rightarrow> string" where
  "htmlEscaper s = concat (map htmlReplacementTable s)"

definition rcdataEscaper :: "string \<Rightarrow> string" where
  "rcdataEscaper s = concat (map htmlReplacementTable s)"

definition attrEscaper :: "string \<Rightarrow> string" where
  "attrEscaper s = concat (map htmlReplacementTable s)"

text \<open>
  \<open>urlFilter\<close> lets a URL through when \<open>isSafeURL\<close> holds: either it has no colon, or
  the text before its first colon contains a \<open>/\<close>, or that text is \<open>http\<close>, \<open>https\<close>
  or \<open>mailto\<close> under \<open>strings.EqualFold\<close>. Any other URL is replaced by
  \<open>#ZgotmplZ\<close>. \<open>EqualFold\<close> compares under simple Unicode case folding: ASCII
  letters fold to lower case, and the only other characters that fold to an ASCII
  letter are U+017F (to \<open>s\<close>) and U+212A (to \<open>k\<close>).
\<close>

fun fold_case :: "string \<Rightarrow> string" where
  "fold_case [] = []"
| "fold_case (c # cs) =
     (if c = CHR 0xC5 \<and> take 1 cs = [CHR 0xBF] then CHR ''s'' # fold_case (drop 1 cs)
      else if c = CHR 0xE2 \<and> take 2 cs = [CHR 0x84, CHR 0xAA] then CHR ''k'' # fold_case (drop 2 cs)
      else if is_upper c then char_of ((of_char c :: nat) + 32) # fold_case cs
      else c # fold_case cs)"

definition EqualFold :: "string \<Rightarrow> string \<Rightarrow> bool" where
  "EqualFold s t = (fold_case s = t)"

definition isSafeURL :: "string \<Rightarrow> bool" where
  "isSafeURL s =
     (let protocol = takeWhile (\<lambda>c. c \<noteq> CHR '':'') s in
      if CHR '':'' \<in> set s \<and> CHR ''/'' \<notin> set protocol
      then EqualFold protocol ''http'' \<or> EqualFold protocol ''https'' \<or> EqualFold protocol ''mailto''
      else True)"

definition urlFilter :: "string \<Rightarrow> string" where
  "urlFilter s = (if isSafeURL s then s else ''#ZgotmplZ'')"

text \<open>
  \<open>urlNormalizer\<close> (\<open>processURLOnto\<close> with \<open>norm = true\<close>) keeps letters, digits,
  \<open>- . _ ~\<close>, the reserved characters \<open>! # $ & * + , / : ; = ? @ [ ]\<close> and a \<open>%\<close>
  that starts a valid escape, and writes any other byte as \<open>%\<close> and two lower-case
  hexadecimal digits.
\<close>

definition lowerhex :: string where
  "lowerhex = ''0123456789abcdef''"

fun urlNormalizer :: "string \<Rightarrow> string" where
  "urlNormalizer [] = []"
| "urlNormalizer (c # cs) =
     (if c \<in> set ''!#$&*+,/:;=?@[]'' \<or> c \<in> set ''-._~''
         \<or> (c = CHR ''%'' \<and> 2 \<le> length cs \<and> ishex (cs ! 0) \<and> ishex (cs ! 1))
         \<or> is_lower c \<or> is_upper c \<or> is_digit c
      then [c]
      else [CHR ''%'', lowerhex ! ((of_char c :: nat) div 16), lowerhex ! ((of_char c :: nat) mod 16)])
     @ urlNormalizer cs"

definition hrefEscaper :: "string \<Rightarrow> string" where
  "hrefEscaper s = attrEscaper (urlNormalizer (urlFilter s))"

subsection \<open>\<open>strconv.FormatInt(i, 10)\<close>\<close>

fun format_nat :: "nat \<Rightarrow> string" where
  "format_nat n =
     (if n < 10 then [char_of (48 + n)]
      else format_nat (n div 10) @ [char_of (48 + n mod 10)])"

declare format_nat.simps [simp del]

definition strconv_FormatInt :: "int \<Rightarrow> string" where
  "strconv_FormatInt i = (if i < 0 then CHR ''-'' # format_nat (nat (- i)) else format_nat (nat i))"

section \<open>The directory listing page\<close>

text \<open>
  The data handed to the template: the anonymous struct of \<open>listDir\<close> and its
  \<open>FileInfo\<close> entries.
\<close>

record FileInfo =
  URL :: string
  Name :: string
  IsDir :: bool

record ListData =
  RelPath :: string
  ParentPath :: string
  HasParent :: bool
  Files :: "FileInfo list"

text \<open>
  The two variants of the server (the English one, \<open>R1_EN.go\<close>, and the Chinese one)
  have templates with the same actions in the same order and differ in the text
  between them. A template is kept as the text between its actions, as
  \<open>html/template\<close> emits it: a CSS comment of the source becomes one space and an
  HTML comment disappears; the rest of the text is emitted as it stands. Text
  outside ASCII is given in UTF-8 bytes.
\<close>

record template_text =
  tx_title :: string
  tx_heading :: string
  tx_list :: string
  tx_parent_pre :: string
  tx_parent_post :: string
  tx_range :: string
  tx_item_pre :: string
  tx_item_mid :: string
  tx_dir_pre :: string
  tx_dir_post :: string
  tx_file_pre :: string
  tx_file_post :: string
  tx_item_post :: string
  tx_tail :: string

definition dirListTemplate_EN :: template_text where
  \<open>dirListTemplate_EN = \<lparr>
     tx_title =
       ''\<newline>'' @
       ''<html>\<newline>'' @
       ''<head>\<newline>'' @
       ''    <meta charset="UTF-8">\<newline>'' @
       ''    <title>File Server - '',
     tx_heading =
       ''</title>\<newline>'' @
       ''    <style>\<newline>'' @
       ''        li { font-family: monospace; }\<newline>'' @
       ''        dir { color: blue; }   \<newline>'' @
       ''        file { color: green; }  \<newline>'' @
       ''    </style>\<newline>'' @
       ''</head>\<newline>'' @
       ''<body>\<newline>'' @
       ''    <h1>Directory Listing: '',
     tx_list =
       ''</h1>\<newline>'' @
       ''    <ul>\<newline>'' @
       ''        '',
     tx_parent_pre =
       ''<li><a href="'',
     tx_parent_post =
       ''">.. (Parent Directory)</a></li>'',
     tx_range =
       ''\<newline>'' @
       ''        '',
     tx_item_pre =
       ''\<newline>'' @
       ''            <li><a href="'',
     tx_item_mid =
       ''">'',
     tx_dir_pre =
       ''<dir>'',
     tx_dir_post =
       ''</dir>'',
     tx_file_pre =
       ''<file>'',
     tx_file_post =
       ''</file>'',
     tx_item_post =
       ''</a></li>\<newline>'' @
       ''        '',
     tx_tail =
       ''\<newline>'' @
       ''    </ul>\<newline>'' @
       ''</body>\<newline>'' @
       ''</html>\<newline>''\<rparr>\<close>

definition dirListTemplate_ZH :: template_text where
  \<open>dirListTemplate_ZH = \<lparr>
     tx_title =
       ''\<newline>'' @
       ''\<newline>'' @
       ''<link href="https://cdn.jsdelivr.net/npm/harmonyos_sans_web@latest/css/harmonyos_sans.css" rel="stylesheet">\<newline>'' @
       ''\<newline>'' @
       ''<link href="https://fonts.loli.net/css?family=Noto+Sans+SC" rel="stylesheet">\<newline>'' @
       ''\<newline>'' @
       ''<html>\<newline>'' @
       ''<head>\<newline>'' @
       ''    <meta charset="UTF-8">\<newline>'' @
       ''    <title>'' @
       [CHR 0xE6, CHR 0x96, CHR 0x87, CHR 0xE4, CHR 0xBB, CHR 0xB6, CHR 0xE6, CHR 0x9C, CHR 0x8D, CHR 0xE5, CHR 0x8A, CHR 0xA1] @
       '' - '',
     tx_heading =
       ''</title>\<newline>'' @
       ''    <style>\<newline>'' @
       ''         \<newline>'' @
       ''        li { \<newline>'' @
       ''            font-family: "HarmonyOS Sans", "'' @
       [CHR 0xE6, CHR 0x80, CHR 0x9D, CHR 0xE6, CHR 0xBA, CHR 0x90, CHR 0xE9, CHR 0xBB, CHR 0x91, CHR 0xE4, CHR 0xBD, CHR 0x93] @
       ''", sans-serif;\<newline>'' @
       ''            font-size:14px; \<newline>'' @
       ''            line-height:1.8;\<newline>'' @
       ''        }\<newline>'' @
       ''        dir { color: #2196F3; }\<newline>'' @
       ''        file { color: #4CAF50; }\<newline>'' @
       ''    </style>\<newline>'' @
       ''</head>\<newline>'' @
       ''<body>\<newline>'' @
       ''    <h2>'' @
       [CHR 0xF0, CHR 0x9F, CHR 0x93, CHR 0x82] @
       '' '' @
       [CHR 0xE5, CHR 0xBD, CHR 0x93, CHR 0xE5, CHR 0x89, CHR 0x8D, CHR 0xE7, CHR 0x9B, CHR 0xAE, CHR 0xE5, CHR 0xBD, CHR 0x95, CHR 0xEF, CHR 0xBC, CHR 0x9A],
     tx_list =
       ''</h2>\<newline>'' @
       ''    <ul>\<newline>'' @
       ''        '',
     tx_parent_pre =
       ''<li><a href="'',
     tx_parent_post =
       ''">'' @
       [CHR 0xE2, CHR 0x86, CHR 0x91] @
       '' '' @
       [CHR 0xE8, CHR 0xBF, CHR 0x94, CHR 0xE5, CHR 0x9B, CHR 0x9E, CHR 0xE4, CHR 0xB8, CHR 0x8A, CHR 0xE7, CHR 0xBA, CHR 0xA7] @
       ''</a></li>'',
     tx_range =
       ''\<newline>'' @
       ''        '',
     tx_item_pre =
       ''\<newline>'' @
       ''            <li><a href="'',
     tx_item_mid =
       ''">\<newline>'' @
       ''                '',
     tx_dir_pre =
       ''<dir>'' @
       [CHR 0xF0, CHR 0x9F, CHR 0x93, CHR 0x81] @
       '' '',
     tx_dir_post =
       ''</dir>\<newline>'' @
       ''                '',
     tx_file_pre =
       ''<file>'' @
       [CHR 0xF0, CHR 0x9F, CHR 0x93, CHR 0x84] @
       '' '',
     tx_file_post =
       ''</file>'',
     tx_item_post =
       ''\<newline>'' @
       ''            </a></li>\<newline>'' @
       ''        '',
     tx_tail =
       ''\<newline>'' @
       ''    </ul>\<newline>'' @
       ''</body>\<newline>'' @
       ''</html>\<newline>''\<rparr>\<close>

datatype variant = EN | ZH

definition dirListTemplate :: "variant \<Rightarrow> template_text" where
  "dirListTemplate v = (case v of EN \<Rightarrow> dirListTemplate_EN | ZH \<Rightarrow> dirListTemplate_ZH)"

text \<open>
  Executing the template. The parent link: \<^verbatim>\<open>{{if .HasParent}}<li><a href="{{.ParentPath}}">...</a></li>{{end}}\<close>;
  one entry of \<^verbatim>\<open>{{range .Files}}\<close>:
  \<^verbatim>\<open><li><a href="{{.URL}}">{{if .IsDir}}<dir>{{.Name}}</dir>{{else}}<file>{{.Name}}</file>{{end}}</a></li>\<close>.
\<close>

definition render_parent :: "template_text \<Rightarrow> ListData \<Rightarrow> string" where
  "render_parent t d =
     (if HasParent d then tx_parent_pre t @ hrefEscaper (ParentPath d) @ tx_parent_post t
      else [])"

definition render_file :: "template_text \<Rightarrow> FileInfo \<Rightarrow> string" where
  "render_file t f =
     tx_item_pre t @ hrefEscaper (URL f) @ tx_item_mid t
     @ (if IsDir f then tx_dir_pre t @ htmlEscaper (Name f) @ tx_dir_post t
        else tx_file_pre t @ htmlEscaper (Name f) @ tx_file_post t)
     @ tx_item_post t"

definition Execute :: "template_text \<Rightarrow> ListData \<Rightarrow> string" where
  "Execute t d =
     tx_title t @ rcdataEscaper (RelPath d)
     @ tx_heading t @ htmlEscaper (RelPath d)
     @ tx_list t @ render_parent t d
     @ tx_range t @ concat (map (render_file t) (Files d))
     @ tx_tail t"

section \<open>Responses, the operating system and the log\<close>

text \<open>
  An \<open>http.ResponseWriter\<close>: the header map, the status code once it is written, and
  the body written so far. \<open>WriteHeader\<close> has an effect only the first time; \<open>Write\<close>
  sends status 200 first when no status was written. Writes to the client do not
  fail in this model.
\<close>

record response =
  status :: "nat option"
  header :: "string \<rightharpoonup> string"
  body :: string

definition new_response :: response where
  "new_response = \<lparr>status = None, header = Map.empty, body = []\<rparr>"

definition Header_Set :: "string \<Rightarrow> string \<Rightarrow> response \<Rightarrow> response" where
  "Header_Set k v w = w\<lparr>header := (header w)(k \<mapsto> v)\<rparr>"

definition Header_Del :: "string \<Rightarrow> response \<Rightarrow> response" where
  "Header_Del k w = w\<lparr>header := (header w)(k := None)\<rparr>"

definition WriteHeader :: "nat \<Rightarrow> response \<Rightarrow> response" where
  "WriteHeader code w = (case status w of None \<Rightarrow> w\<lparr>status := Some code\<rparr> | Some _ \<Rightarrow> w)"

definition Write :: "string \<Rightarrow> response \<Rightarrow> response" where
  "Write bs w = (let w' = WriteHeader 200 w in w'\<lparr>body := body w' @ bs\<rparr>)"

text \<open>
  \<open>http.Error(w, msg, code)\<close>: plain-text content type, \<open>nosniff\<close>, the status code,
  and the message followed by a newline as the body.
\<close>

definition http_Error :: "response \<Rightarrow> string \<Rightarrow> nat \<Rightarrow> response" where
  "http_Error w msg code =
     Write (msg @ ''\<newline>'')
       (WriteHeader code
         (Header_Set ''X-Content-Type-Options'' ''nosniff''
           (Header_Set ''Content-Type'' ''text/plain; charset=utf-8''
             (Header_Del ''Content-Length'' w))))"

definition StatusNotFound :: nat where "StatusNotFound = 404"
definition StatusForbidden :: nat where "StatusForbidden = 403"
definition StatusInternalServerError :: nat where "StatusInternalServerError = 500"

text \<open>
  The operating system is a parameter of the model. Every call takes the state of
  the world and returns its result with the new state, so two calls on the same
  path need not agree. A Go \<open>error\<close> is represented by its message; an open file
  by its descriptor.
  \<^item> \<open>os_Open\<close>: \<open>os.Open(name)\<close>;
  \<^item> \<open>file_Stat\<close>: \<open>(*os.File).Stat()\<close>, giving \<open>Name()\<close>, \<open>Size()\<close> (an \<open>int64\<close>)
    and \<open>IsDir()\<close>;
  \<^item> \<open>file_Close\<close>: \<open>(*os.File).Close()\<close>;
  \<^item> \<open>os_ReadDir\<close>: \<open>os.ReadDir(name)\<close>, giving each entry's \<open>Name()\<close> and \<open>IsDir()\<close>;
  \<^item> \<open>io_Copy\<close>: what \<open>io.Copy(w, file)\<close> moves from the open file to the response,
    and the error that stopped it, if any;
  \<^item> \<open>time_Now\<close>: \<open>time.Now()\<close>, in nanoseconds.
\<close>

type_synonym error = string

record os_FileInfo =
  fi_Name :: string
  fi_Size :: "64 word"
  fi_IsDir :: bool

record DirEntry =
  de_Name :: string
  de_IsDir :: bool

record 'w os =
  os_Open :: "string \<Rightarrow> 'w \<Rightarrow> (error + nat) \<times> 'w"
  file_Stat :: "nat \<Rightarrow> 'w \<Rightarrow> (error + os_FileInfo) \<times> 'w"
  file_Close :: "nat \<Rightarrow> 'w \<Rightarrow> 'w"
  os_ReadDir :: "string \<Rightarrow> 'w \<Rightarrow> (error + DirEntry list) \<times> 'w"
  io_Copy :: "nat \<Rightarrow> 'w \<Rightarrow> (string \<times> error option) \<times> 'w"
  time_Now :: "'w \<Rightarrow> int \<times> 'w"

text \<open>
  The lines written with \<open>log.Printf\<close>, one constructor for each call in the source
  with the values it prints:
  \<open>[REQUEST] method path\<close>, \<open>[COMPLETE] method path Duration: d\<close>,
  \<open>Processing path: reqPath -> fullPath\<close>, \<open>File open failed: err\<close>,
  \<open>File stat failed: err\<close>, \<open>Directory read error: err\<close>,
  \<open>File open error: err\<close> (in \<open>sendFile\<close>) and \<open>File transfer error: err\<close>.
\<close>

datatype log_entry =
    LogRequest string string
  | LogComplete string string int
  | LogProcessing string string
  | LogOpenFailed error
  | LogStatFailed error
  | LogDirReadError error
  | LogSendOpenError error
  | LogTransferError error

text \<open>
  The messages and the status code that differ between the two variants. The
  English variant answers an unreadable directory with 403, the Chinese one with
  500.
\<close>

definition msg_not_found :: "variant \<Rightarrow> string" where
  "msg_not_found v = (case v of EN \<Rightarrow> ''404 Not Found''
     | ZH \<Rightarrow> [CHR 0xE6, CHR 0x96, CHR 0x87, CHR 0xE4, CHR 0xBB, CHR 0xB6, CHR 0xE6, CHR 0x9C, CHR 0xAA, CHR 0xE6, CHR 0x89, CHR 0xBE, CHR 0xE5, CHR 0x88, CHR 0xB0])"

definition msg_stat_failed :: "variant \<Rightarrow> string" where
  "msg_stat_failed v = (case v of EN \<Rightarrow> ''500 Internal Server Error''
     | ZH \<Rightarrow> [CHR 0xE6, CHR 0x96, CHR 0x87, CHR 0xE4, CHR 0xBB, CHR 0xB6, CHR 0xE8, CHR 0xAE, CHR 0xBF, CHR 0xE9, CHR 0x97, CHR 0xAE, CHR 0xE9, CHR 0x94, CHR 0x99, CHR 0xE8, CHR 0xAF, CHR 0xAF])"

definition msg_dir_unreadable :: "variant \<Rightarrow> string" where
  "msg_dir_unreadable v = (case v of EN \<Rightarrow> ''403 Forbidden''
     | ZH \<Rightarrow> [CHR 0xE7, CHR 0x9B, CHR 0xAE, CHR 0xE5, CHR 0xBD, CHR 0x95, CHR 0xE4, CHR 0xB8, CHR 0x8D, CHR 0xE5, CHR 0x8F, CHR 0xAF, CHR 0xE8, CHR 0xAF, CHR 0xBB])"

definition status_dir_unreadable :: "variant \<Rightarrow> nat" where
  "status_dir_unreadable v = (case v of EN \<Rightarrow> StatusForbidden | ZH \<Rightarrow> StatusInternalServerError)"

section \<open>The request handler\<close>

text \<open>
  \<open>listDir(w, r, dirPath, relPath)\<close>. The result is the response, the log lines
  written, and the new state of the world. \<open>file_entry\<close> is the body of the loop
  over the directory entries, \<open>list_data\<close> the data given to the template.
\<close>

definition file_entry :: "string \<Rightarrow> DirEntry \<Rightarrow> FileInfo" where
  "file_entry relPath file =
     \<lparr>URL = url_PathEscape (filepath_ToSlash (filepath_Join [relPath, de_Name file])),
      Name = html_EscapeString (de_Name file),
      IsDir = de_IsDir file\<rparr>"

definition list_data :: "string \<Rightarrow> DirEntry list \<Rightarrow> ListData" where
  "list_data relPath files =
     \<lparr>RelPath = html_EscapeString relPath,
      ParentPath = url_PathEscape (filepath_ToSlash (filepath_Dir relPath)),
      HasParent = (relPath \<noteq> []),
      Files = map (file_entry relPath) files\<rparr>"

definition listDir ::
  "variant \<Rightarrow> 'w os \<Rightarrow> response \<Rightarrow> string \<Rightarrow> string \<Rightarrow> 'w \<Rightarrow> (response \<times> log_entry list) \<times> 'w" where
  "listDir v sys w dirPath relPath s =
     (case os_ReadDir sys dirPath s of
        (Inl err, s1) \<Rightarrow>
          ((http_Error w (msg_dir_unreadable v) (status_dir_unreadable v), [LogDirReadError err]), s1)
      | (Inr files, s1) \<Rightarrow>
          ((Write (Execute (dirListTemplate v) (list_data relPath files))
              (Header_Set ''Content-Type'' ''text/html; charset=utf-8'' w), []), s1))"

text \<open>
  \<open>sendFile(w, r, filePath, fileName, fileSize)\<close>. The file is opened again, by its
  path; the deferred \<open>Close\<close> runs when the function returns.
\<close>

definition content_disposition :: "string \<Rightarrow> string" where
  \<open>content_disposition encodedName =
     ''attachment; filename="'' @ encodedName @ ''"; filename*=UTF-8'' @ [CHR 0x27, CHR 0x27]
     @ encodedName\<close>

definition sendFile ::
  "variant \<Rightarrow> 'w os \<Rightarrow> response \<Rightarrow> string \<Rightarrow> string \<Rightarrow> 64 word \<Rightarrow> 'w \<Rightarrow> (response \<times> log_entry list) \<times> 'w" where
  "sendFile v sys w filePath fileName fileSize s =
     (case os_Open sys filePath s of
        (Inl err, s1) \<Rightarrow>
          ((http_Error w (msg_not_found v) StatusNotFound, [LogSendOpenError err]), s1)
      | (Inr file, s1) \<Rightarrow>
          (let encodedName = url_PathEscape fileName;
               w1 = Header_Set ''Content-Disposition'' (content_disposition encodedName) w;
               w2 = Header_Set ''Content-Type'' ''application/octet-stream'' w1;
               w3 = Header_Set ''Content-Length'' (strconv_FormatInt (sint fileSize)) w2
           in case io_Copy sys file s1 of
                ((bytes, cerr), s2) \<Rightarrow>
                  ((if bytes = [] then w3 else Write bytes w3,
                    (case cerr of None \<Rightarrow> [] | Some err \<Rightarrow> [LogTransferError err])),
                   file_Close sys file s2)))"

text \<open>
  The handler registered for \<open>/\<close>. \<open>dispatch\<close> is its body from the path
  sanitization on; \<open>handler\<close> adds the clock readings and the two log lines around
  it (the deferred \<open>[COMPLETE]\<close> line is written last), and sends status 200 when
  the body wrote nothing, as the server does when a handler returns.
\<close>

record request =
  Method :: string
  Path :: string

definition dispatch ::
  "variant \<Rightarrow> 'w os \<Rightarrow> string \<Rightarrow> response \<Rightarrow> string \<Rightarrow> 'w \<Rightarrow> (response \<times> log_entry list) \<times> 'w" where
  "dispatch v sys rootDir w reqPath s =
     (let full = fullPath rootDir reqPath;
          l0 = [LogProcessing reqPath full]
      in case os_Open sys full s of
           (Inl err, s1) \<Rightarrow>
             ((http_Error w (msg_not_found v) StatusNotFound, l0 @ [LogOpenFailed err]), s1)
         | (Inr file, s1) \<Rightarrow>
             (case file_Stat sys file s1 of
                (Inl err, s2) \<Rightarrow>
                  ((http_Error w (msg_stat_failed v) StatusInternalServerError,
                    l0 @ [LogStatFailed err]), file_Close sys file s2)
              | (Inr fileInfo, s2) \<Rightarrow>
                  (case (if fi_IsDir fileInfo
                         then listDir v sys w full (cleanedPath reqPath) s2
                         else sendFile v sys w full (fi_Name fileInfo) (fi_Size fileInfo) s2) of
                     ((w', l1), s3) \<Rightarrow> ((w', l0 @ l1), file_Close sys file s3))))"

definition handler ::
  "variant \<Rightarrow> 'w os \<Rightarrow> string \<Rightarrow> request \<Rightarrow> 'w \<Rightarrow> (response \<times> log_entry list) \<times> 'w" where
  "handler v sys rootDir r s =
     (case time_Now sys s of
        (startTime, s1) \<Rightarrow>
          (case dispatch v sys rootDir new_response (Path r) s1 of
             ((w, l), s2) \<Rightarrow>
               (case time_Now sys s2 of
                  (endTime, s3) \<Rightarrow>
                    ((WriteHeader 200 w,
                      LogRequest (Method r) (Path r) # l
                      @ [LogComplete (Method r) (Path r) (endTime - startTime)]), s3))))"

section \<open>A scripted operating system\<close>

text \<open>
  An operating system for running the handler on concrete inputs. The state of the
  world is the number of calls made so far, and a script lists what each call
  finds, in order: the call number \<open>n\<close> takes the \<open>n\<close>-th event of the script when it
  is of its kind, and fails otherwise. The clock shows the number of calls made;
  \<open>Close\<close> is not counted and changes nothing.
\<close>

datatype event =
    Clock
  | Opened "error + nat"
  | Statted "error + os_FileInfo"
  | DirRead "error + DirEntry list"
  | Copied string "error option"

definition event_at :: "event list \<Rightarrow> nat \<Rightarrow> event" where
  "event_at es n = (if n < length es then es ! n else Clock)"

definition script_os :: "event list \<Rightarrow> nat os" where
  "script_os es =
     \<lparr>os_Open = (\<lambda>name n.
        (case event_at es n of Opened x \<Rightarrow> x | _ \<Rightarrow> Inl ''no such file or directory'', Suc n)),
      file_Stat = (\<lambda>file n.
        (case event_at es n of Statted x \<Rightarrow> x | _ \<Rightarrow> Inl ''bad file descriptor'', Suc n)),
      file_Close = (\<lambda>file n. n),
      os_ReadDir = (\<lambda>name n.
        (case event_at es n of DirRead x \<Rightarrow> x | _ \<Rightarrow> Inl ''permission denied'', Suc n)),
      io_Copy = (\<lambda>file n.
        (case event_at es n of Copied bytes err \<Rightarrow> (bytes, err)
                             | _ \<Rightarrow> ([], Some ''input/output error''), Suc n)),
      time_Now = (\<lambda>n. (int n, Suc n))\<rparr>"

text \<open>The request \<open>GET path\<close>.\<close>

definition GET :: "string \<Rightarrow> request" where
  "GET p = \<lparr>Method = ''GET'', Path = p\<rparr>"

text \<open>The response and the log lines of a run of the handler.\<close>

definition resp_of :: "(response \<times> log_entry list) \<times> 'w \<Rightarrow> response" where
  "resp_of x = fst (fst x)"

definition log_of :: "(response \<times> log_entry list) \<times> 'w \<Rightarrow> log_entry list" where
  "log_of x = snd (fst x)"


text \<open>
  Scripts: a regular file of five bytes that is served; the same file when it
  has gone by the time \<open>sendFile\<close> opens it; a path that does not exist; a file
  whose \<open>Stat\<close> fails; a directory that cannot be read.
\<close>

definition a_file :: os_FileInfo where
  "a_file = \<lparr>fi_Name = ''report 1.txt'', fi_Size = 5, fi_IsDir = False\<rparr>"

definition a_dir :: os_FileInfo where
  "a_dir = \<lparr>fi_Name = ''docs'', fi_Size = 4096, fi_IsDir = True\<rparr>"

definition file_events :: "event list" where
  "file_events =
     [Clock, Opened (Inr 3), Statted (Inr a_file), Opened (Inr 4), Copied ''hello'' None]"

definition vanished_events :: "event list" where
  "vanished_events =
     [Clock, Opened (Inr 3), Statted (Inr a_file), Opened (Inl ''no such file or directory'')]"

definition missing_events :: "event list" where
  "missing_events = [Clock, Opened (Inl ''no such file or directory'')]"

definition stat_failed_events :: "event list" where
  "stat_failed_events = [Clock, Opened (Inr 3), Statted (Inl ''input/output error'')]"

definition unreadable_events :: "event list" where
  "unreadable_events =
     [Clock, Opened (Inr 3), Statted (Inr a_dir), DirRead (Inl ''permission denied'')]"

text \<open>
  A name that \<open>os.ReadDir\<close> can return for a directory entry: not empty, without a
  separator, and neither \<open>.\<close> nor \<open>..\<close>.
\<close>

definition is_entry_name :: "string \<Rightarrow> bool" where
  "is_entry_name name =
     (name \<noteq> [] \<and> name \<noteq> ''.'' \<and> name \<noteq> ''..'' \<and> Separator \<notin> set name)"

text \<open>
  More scripts: the root directory, empty; the root directory with one file whose
  name contains a colon.
\<close>

definition root_events :: "event list" where
  "root_events = [Clock, Opened (Inr 3), Statted (Inr a_dir), DirRead (Inr [])]"

definition colon_events :: "event list" where
  "colon_events =
     [Clock, Opened (Inr 3), Statted (Inr a_dir),
      DirRead (Inr [\<lparr>de_Name = ''a:b'', de_IsDir = False\<rparr>])]"

section \<open>Path resolution\<close>

text \<open>
  C1 (the resolved path stays inside the root directory, for every request path).
  The resolver does not keep this promise. A cleaned relative path keeps its
  leading \<open>..\<close> elements, and joining it onto the root lets them climb out of it:
  with the root \<open>/srv/share\<close>, the request path \<open>/../../etc/passwd\<close> is cleaned to
  \<open>../../etc/passwd\<close> and resolved to \<open>/etc/passwd\<close>, which does not have the root
  as a prefix.
\<close>

theorem resolver_escapes_root:
  "cleanedPath ''/../../etc/passwd'' = ''../../etc/passwd''
   \<and> fullPath ''/srv/share'' ''/../../etc/passwd'' = ''/etc/passwd''
   \<and> \<not> prefix ''/srv/share'' (fullPath ''/srv/share'' ''/../../etc/passwd'')"
  by code_simp

section \<open>Responses and runs of the handler\<close>

lemma resp_of_simp [simp]: "resp_of ((w, l), s) = w"
  by (simp add: resp_of_def)

lemma log_of_simp [simp]: "log_of ((w, l), s) = l"
  by (simp add: log_of_def)

lemma http_Error_new [simp]:
  "status (http_Error new_response msg code) = Some code"
  "body (http_Error new_response msg code) = msg @ ''\<newline>''"
  "header (http_Error new_response msg code) ''Content-Type'' = Some ''text/plain; charset=utf-8''"
  by (simp_all add: http_Error_def Write_def WriteHeader_def Header_Set_def Header_Del_def
      new_response_def Let_def)

lemma WriteHeader_fields [simp]:
  "header (WriteHeader c w) = header w"
  "body (WriteHeader c w) = body w"
  "status (WriteHeader c w) = Some (case status w of None \<Rightarrow> c | Some c' \<Rightarrow> c')"
  by (simp_all add: WriteHeader_def split: option.splits)

lemma Write_fields [simp]:
  "header (Write bs w) = header w"
  "body (Write bs w) = body w @ bs"
  "status (Write bs w) = Some (case status w of None \<Rightarrow> 200 | Some c' \<Rightarrow> c')"
  by (simp_all add: Write_def Let_def)

lemma Header_Set_fields [simp]:
  "header (Header_Set k x w) = (header w)(k \<mapsto> x)"
  "body (Header_Set k x w) = body w"
  "status (Header_Set k x w) = status w"
  by (simp_all add: Header_Set_def)

lemma new_response_fields [simp]:
  "header new_response = Map.empty"
  "body new_response = []"
  "status new_response = None"
  by (simp_all add: new_response_def)

lemma handler_resp:
  assumes "time_Now sys s = (t0, s0)"
  shows "resp_of (handler v sys rootDir r s)
         = WriteHeader 200 (resp_of (dispatch v sys rootDir new_response (Path r) s0))"
  using assms by (simp add: handler_def resp_of_def split: prod.splits)

lemma handler_log:
  assumes "time_Now sys s = (t0, s0)"
  shows "\<exists>d. log_of (handler v sys rootDir r s)
         = LogRequest (Method r) (Path r)
           # log_of (dispatch v sys rootDir new_response (Path r) s0)
           @ [LogComplete (Method r) (Path r) d]"
  using assms by (simp add: handler_def log_of_def split: prod.splits)

lemma dispatch_open_failed:
  assumes "os_Open sys (fullPath rootDir reqPath) s = (Inl err, s1)"
  shows "dispatch v sys rootDir w reqPath s
         = ((http_Error w (msg_not_found v) StatusNotFound,
             [LogProcessing reqPath (fullPath rootDir reqPath), LogOpenFailed err]), s1)"
  using assms by (simp add: dispatch_def Let_def)

lemma dispatch_stat_failed:
  assumes "os_Open sys (fullPath rootDir reqPath) s = (Inr fd, s1)"
      and "file_Stat sys fd s1 = (Inl err, s2)"
  shows "dispatch v sys rootDir w reqPath s
         = ((http_Error w (msg_stat_failed v) StatusInternalServerError,
             [LogProcessing reqPath (fullPath rootDir reqPath), LogStatFailed err]),
            file_Close sys fd s2)"
  using assms by (simp add: dispatch_def Let_def)

lemma dispatch_dir:
  assumes "os_Open sys (fullPath rootDir reqPath) s = (Inr fd, s1)"
      and "file_Stat sys fd s1 = (Inr fi, s2)"
      and "fi_IsDir fi"
  shows "resp_of (dispatch v sys rootDir w reqPath s)
         = resp_of (listDir v sys w (fullPath rootDir reqPath) (cleanedPath reqPath) s2)"
    and "log_of (dispatch v sys rootDir w reqPath s)
         = LogProcessing reqPath (fullPath rootDir reqPath)
           # log_of (listDir v sys w (fullPath rootDir reqPath) (cleanedPath reqPath) s2)"
  using assms by (simp_all add: dispatch_def Let_def resp_of_def log_of_def split: prod.splits)

lemma dispatch_file:
  assumes "os_Open sys (fullPath rootDir reqPath) s = (Inr fd, s1)"
      and "file_Stat sys fd s1 = (Inr fi, s2)"
      and "\<not> fi_IsDir fi"
  shows "resp_of (dispatch v sys rootDir w reqPath s)
         = resp_of (sendFile v sys w (fullPath rootDir reqPath) (fi_Name fi) (fi_Size fi) s2)"
    and "log_of (dispatch v sys rootDir w reqPath s)
         = LogProcessing reqPath (fullPath rootDir reqPath)
           # log_of (sendFile v sys w (fullPath rootDir reqPath) (fi_Name fi) (fi_Size fi) s2)"
  using assms by (simp_all add: dispatch_def Let_def resp_of_def log_of_def split: prod.splits)

lemma sendFile_open_failed:
  assumes "os_Open sys filePath s = (Inl err, s1)"
  shows "sendFile v sys w filePath fileName fileSize s
         = ((http_Error w (msg_not_found v) StatusNotFound, [LogSendOpenError err]), s1)"
  using assms by (simp add: sendFile_def)

lemma sendFile_sent:
  assumes "os_Open sys filePath s = (Inr fd, s1)"
      and "io_Copy sys fd s1 = ((bytes, cerr), s2)"
  shows "header (resp_of (sendFile v sys w filePath fileName fileSize s))
         = (header w)(''Content-Disposition'' \<mapsto> content_disposition (url_PathEscape fileName),
                      ''Content-Type'' \<mapsto> ''application/octet-stream'',
                      ''Content-Length'' \<mapsto> strconv_FormatInt (sint fileSize))"
    and "body (resp_of (sendFile v sys w filePath fileName fileSize s)) = body w @ bytes"
    and "status (resp_of (sendFile v sys w filePath fileName fileSize s))
         = (if bytes = [] then status w else Some (case status w of None \<Rightarrow> 200 | Some c \<Rightarrow> c))"
    and "log_of (sendFile v sys w filePath fileName fileSize s)
         = (case cerr of None \<Rightarrow> [] | Some err \<Rightarrow> [LogTransferError err])"
  using assms by (simp_all add: sendFile_def Let_def resp_of_def log_of_def split: option.splits)

lemma listDir_read_failed:
  assumes "os_ReadDir sys dirPath s = (Inl err, s1)"
  shows "listDir v sys w dirPath relPath s
         = ((http_Error w (msg_dir_unreadable v) (status_dir_unreadable v), [LogDirReadError err]), s1)"
  using assms by (simp add: listDir_def)

lemma listDir_listed:
  assumes "os_ReadDir sys dirPath s = (Inr files, s1)"
  shows "listDir v sys w dirPath relPath s
         = ((Write (Execute (dirListTemplate v) (list_data relPath files))
              (Header_Set ''Content-Type'' ''text/html; charset=utf-8'' w), []), s1)"
  using assms by (simp add: listDir_def)

lemma handler_log_mem:
  assumes "time_Now sys s = (ta, sa)"
      and "e \<in> set (log_of (dispatch v sys rootDir new_response (Path r) sa))"
  shows "e \<in> set (log_of (handler v sys rootDir r s))"
  using handler_log [OF assms(1), of v rootDir r] assms(2) by auto

section \<open>Escaping and formatting\<close>


lemma upperhex_nth:
  assumes "k < 16"
  shows "ishex (upperhex ! k)" and "unhex (upperhex ! k) = k"
    and "upperhex ! k \<noteq> CHR 0x22" and "upperhex ! k \<noteq> Separator"
proof -
  have k: "k = 0 \<or> k = 1 \<or> k = 2 \<or> k = 3 \<or> k = 4 \<or> k = 5 \<or> k = 6 \<or> k = 7 \<or> k = 8
      \<or> k = 9 \<or> k = 10 \<or> k = 11 \<or> k = 12 \<or> k = 13 \<or> k = 14 \<or> k = 15"
    using assms by arith
  show "ishex (upperhex ! k)"
    using k by (elim disjE) (simp_all add: upperhex_def ishex_def is_digit_def byte_in_def)
  show "unhex (upperhex ! k) = k"
    using k by (elim disjE) (simp_all add: upperhex_def unhex_def is_digit_def byte_in_def)
  show "upperhex ! k \<noteq> CHR 0x22"
    using k by (elim disjE) (simp_all add: upperhex_def)
  show "upperhex ! k \<noteq> Separator"
    using k by (elim disjE) (simp_all add: upperhex_def Separator_def)
qed

lemma of_char_div_mod:
  "(of_char c :: nat) div 16 < 16" "(of_char c :: nat) mod 16 < 16"
  "(of_char c :: nat) div 16 * 16 + (of_char c :: nat) mod 16 = of_char c"
proof -
  have "(of_char c :: nat) < 256" by simp
  then show "(of_char c :: nat) div 16 < 16" by arith
  show "(of_char c :: nat) mod 16 < 16" by simp
  show "(of_char c :: nat) div 16 * 16 + (of_char c :: nat) mod 16 = of_char c" by simp
qed

lemma not_shouldEscape:
  assumes "\<not> shouldEscape c"
  shows "c \<noteq> CHR ''%''" and "c \<noteq> CHR 0x22" and "c \<noteq> Separator"
  using assms
  by (auto simp: shouldEscape_def is_lower_def is_upper_def is_digit_def byte_in_def Separator_def)

lemma url_PathUnescape_PathEscape: "url_PathUnescape (url_PathEscape s) = Some s"
proof (induction s)
  case Nil
  show ?case by (simp add: url_PathEscape_def)
next
  case (Cons c s)
  have step: "url_PathEscape (c # s) = (if shouldEscape c then escape_byte c else [c]) @ url_PathEscape s"
    by (simp add: url_PathEscape_def)
  show ?case
  proof (cases "shouldEscape c")
    case True
    then show ?thesis
      using Cons.IH by (simp add: step escape_byte_def upperhex_nth of_char_div_mod)
  next
    case False
    then show ?thesis
      using Cons.IH not_shouldEscape(1) [OF False] by (simp add: step)
  qed
qed

lemma url_PathEscape_chars:
  "CHR 0x22 \<notin> set (url_PathEscape s)" "Separator \<notin> set (url_PathEscape s)"
proof -
  have "c \<noteq> CHR 0x22 \<and> c \<noteq> Separator" if "c \<in> set (url_PathEscape s)" for c
  proof -
    from that obtain x where x: "x \<in> set s" "c \<in> set (if shouldEscape x then escape_byte x else [x])"
      by (auto simp: url_PathEscape_def)
    show ?thesis
    proof (cases "shouldEscape x")
      case True
      with x(2) show ?thesis
        using upperhex_nth(3,4) of_char_div_mod(1,2) [of x]
        by (auto simp: escape_byte_def Separator_def)
    next
      case False
      with x(2) show ?thesis using not_shouldEscape(2,3) [OF False] by simp
    qed
  qed
  then show "CHR 0x22 \<notin> set (url_PathEscape s)" "Separator \<notin> set (url_PathEscape s)"
    by auto
qed


section \<open>Runs of the scripts\<close>

lemma file_events_run:
  "time_Now (script_os file_events) 0 = (0, 1)"
  "os_Open (script_os file_events) p 1 = (Inr 3, 2)"
  "file_Stat (script_os file_events) 3 2 = (Inr a_file, 3)"
  "os_Open (script_os file_events) p 3 = (Inr 4, 4)"
  "io_Copy (script_os file_events) 4 4 = ((''hello'', None), 5)"
  by (simp_all add: script_os_def event_at_def file_events_def)

lemma vanished_events_run:
  "time_Now (script_os vanished_events) 0 = (0, 1)"
  "os_Open (script_os vanished_events) p 1 = (Inr 3, 2)"
  "file_Stat (script_os vanished_events) 3 2 = (Inr a_file, 3)"
  "os_Open (script_os vanished_events) p 3 = (Inl ''no such file or directory'', 4)"
  by (simp_all add: script_os_def event_at_def vanished_events_def)

lemma a_file_fields:
  "\<not> fi_IsDir a_file" "sint (fi_Size a_file) = int 5" "fi_Name a_file = ''report 1.txt''"
  by (simp_all add: a_file_def)


lemma missing_events_run:
  "time_Now (script_os missing_events) 0 = (0, 1)"
  "os_Open (script_os missing_events) p 1 = (Inl ''no such file or directory'', 2)"
  by (simp_all add: script_os_def event_at_def missing_events_def)

lemma stat_failed_events_run:
  "time_Now (script_os stat_failed_events) 0 = (0, 1)"
  "os_Open (script_os stat_failed_events) p 1 = (Inr 3, 2)"
  "file_Stat (script_os stat_failed_events) 3 2 = (Inl ''input/output error'', 3)"
  by (simp_all add: script_os_def event_at_def stat_failed_events_def)

lemma unreadable_events_run:
  "time_Now (script_os unreadable_events) 0 = (0, 1)"
  "os_Open (script_os unreadable_events) p 1 = (Inr 3, 2)"
  "file_Stat (script_os unreadable_events) 3 2 = (Inr a_dir, 3)"
  "os_ReadDir (script_os unreadable_events) p 3 = (Inl ''permission denied'', 4)"
  by (simp_all add: script_os_def event_at_def unreadable_events_def)

lemma GET_fields [simp]: "Path (GET p) = p" "Method (GET p) = ''GET''"
  by (simp_all add: GET_def)

lemma a_dir_fields: "fi_IsDir a_dir"
  by (simp add: a_dir_def)

section \<open>File responses\<close>

text \<open>
  In the theorems of this section a request \<open>r\<close> reaches a regular file: the clock
  is read, the dispatcher opens the resolved path and \<open>Stat\<close> reports an entry that
  is not a directory. \<open>sendFile\<close> then opens the path again.
\<close>

text \<open>
  C8 (every file response has the content type \<open>application/octet-stream\<close>).
  Whatever the name of the file (\<open>fi_Name fi\<close>, so whatever its extension) and
  whatever bytes are copied, once \<open>sendFile\<close> has opened the file the
  \<open>Content-Type\<close> header of the response is \<open>application/octet-stream\<close>.
\<close>

theorem file_response_content_type:
  assumes "time_Now sys s = (ta, sa)"
      and "os_Open sys (fullPath rootDir (Path r)) sa = (Inr fd, sb)"
      and "file_Stat sys fd sb = (Inr fi, sc)"
      and "\<not> fi_IsDir fi"
      and "os_Open sys (fullPath rootDir (Path r)) sc = (Inr gd, sd)"
  shows "header (resp_of (handler v sys rootDir r s)) ''Content-Type''
         = Some ''application/octet-stream''"
proof -
  obtain bytes cerr se where c: "io_Copy sys gd sd = ((bytes, cerr), se)"
    by (metis prod.exhaust)
  show ?thesis
    by (simp add: handler_resp [OF assms(1)] dispatch_file [OF assms(2,3,4)]
        sendFile_sent [OF assms(5) c])
qed


theorem file_response_content_type_witness:
  "header (resp_of (handler EN (script_os file_events) ''/srv/share'' (GET ''/report 1.txt'') 0))
     ''Content-Type'' = Some ''application/octet-stream''"
  using file_response_content_type [OF file_events_run(1,2,3) a_file_fields(1)
      file_events_run(4), where rootDir = "''/srv/share''" and r = "GET ''/report 1.txt''" and v = EN]
  by simp

text \<open>
  C4 (the \<open>Content-Disposition\<close> header of a file response). For every file name
  the header is \<open>attachment\<close>, followed by the quoted \<open>filename\<close> parameter and by
  the extended \<open>filename*\<close> parameter with the prefix \<open>UTF-8''\<close>. The quoted
  parameter is not the plain file name: both parameters hold the same text, the
  name escaped by \<open>url.PathEscape\<close>. That text contains no double quote, so the
  quoted parameter ends where it should, and unescaping it gives the file name
  back.
\<close>

theorem file_response_content_disposition:
  assumes "time_Now sys s = (ta, sa)"
      and "os_Open sys (fullPath rootDir (Path r)) sa = (Inr fd, sb)"
      and "file_Stat sys fd sb = (Inr fi, sc)"
      and "\<not> fi_IsDir fi"
      and "os_Open sys (fullPath rootDir (Path r)) sc = (Inr gd, sd)"
  shows \<open>header (resp_of (handler v sys rootDir r s)) ''Content-Disposition''
         = Some (''attachment; filename="'' @ url_PathEscape (fi_Name fi)
                 @ ''"; filename*=UTF-8'' @ [CHR 0x27, CHR 0x27] @ url_PathEscape (fi_Name fi))
       \<and> CHR 0x22 \<notin> set (url_PathEscape (fi_Name fi))
       \<and> url_PathUnescape (url_PathEscape (fi_Name fi)) = Some (fi_Name fi)\<close>
proof -
  obtain bytes cerr se where c: "io_Copy sys gd sd = ((bytes, cerr), se)"
    by (metis prod.exhaust)
  have "header (resp_of (handler v sys rootDir r s)) ''Content-Disposition''
        = Some (content_disposition (url_PathEscape (fi_Name fi)))"
    by (simp add: handler_resp [OF assms(1)] dispatch_file [OF assms(2,3,4)]
        sendFile_sent [OF assms(5) c])
  then show ?thesis
    by (simp add: content_disposition_def url_PathEscape_chars url_PathUnescape_PathEscape)
qed

theorem file_response_content_disposition_witness:
  \<open>header (resp_of (handler EN (script_os file_events) ''/srv/share'' (GET ''/report 1.txt'') 0))
     ''Content-Disposition''
   = Some (''attachment; filename="report%201.txt"; filename*=UTF-8'' @ [CHR 0x27, CHR 0x27]
           @ ''report%201.txt'')\<close>
proof -
  have e: "url_PathEscape ''report 1.txt'' = ''report%201.txt''"
    by code_simp
  show ?thesis
    using file_response_content_disposition [OF file_events_run(1,2,3) a_file_fields(1)
        file_events_run(4), where rootDir = "''/srv/share''" and r = "GET ''/report 1.txt''" and v = EN]
    by (simp add: a_file_fields e)
qed

text \<open>
  The quoted parameter of a file whose name needs escaping: for \<open>report 1.txt\<close>
  the header has \<open>filename="report%201.txt"\<close>, and \<open>filename="report 1.txt"\<close> occurs
  nowhere in it.
\<close>

theorem quoted_filename_is_escaped:
  \<open>fi_Name a_file = ''report 1.txt''
   \<and> header (resp_of (handler EN (script_os file_events) ''/srv/share'' (GET ''/report 1.txt'') 0))
       ''Content-Disposition''
     = Some (content_disposition ''report%201.txt'')
   \<and> sublist ''filename="report%201.txt"'' (content_disposition ''report%201.txt'')
   \<and> \<not> sublist ''filename="report 1.txt"'' (content_disposition ''report%201.txt'')\<close>
proof -
  have e: "url_PathEscape ''report 1.txt'' = ''report%201.txt''"
    by code_simp
  have h: "header (resp_of (handler EN (script_os file_events) ''/srv/share''
              (GET ''/report 1.txt'') 0)) ''Content-Disposition''
           = Some (content_disposition ''report%201.txt'')"
    unfolding handler_resp [OF file_events_run(1)] WriteHeader_fields
      dispatch_file(1) [OF file_events_run(2,3) a_file_fields(1)]
      sendFile_sent(1) [OF file_events_run(4,5)]
    by (simp add: a_file_fields e)
  have b: \<open>sublist ''filename="report%201.txt"'' (content_disposition ''report%201.txt'')\<close>
    by code_simp
  have c: \<open>\<not> sublist ''filename="report 1.txt"'' (content_disposition ''report%201.txt'')\<close>
    by code_simp
  show ?thesis
    using h b c a_file_fields(3) by (intro conjI)
qed



text \<open>
  C10 (the second open in \<open>sendFile\<close>). \<open>sendFile\<close> opens the path again instead
  of using the handle of the dispatcher. When this second open fails, although
  the dispatcher's open and \<open>Stat\<close> of the same path succeeded in the same request,
  the response is 404 with the not-found message, and the error is logged.
\<close>

theorem second_open_failure:
  assumes "time_Now sys s = (ta, sa)"
      and "os_Open sys (fullPath rootDir (Path r)) sa = (Inr fd, sb)"
      and "file_Stat sys fd sb = (Inr fi, sc)"
      and "\<not> fi_IsDir fi"
      and "os_Open sys (fullPath rootDir (Path r)) sc = (Inl err, sd)"
  shows "status (resp_of (handler v sys rootDir r s)) = Some 404
       \<and> body (resp_of (handler v sys rootDir r s)) = msg_not_found v @ ''\<newline>''
       \<and> LogSendOpenError err \<in> set (log_of (handler v sys rootDir r s))"
proof -
  obtain d where "log_of (handler v sys rootDir r s)
         = LogRequest (Method r) (Path r)
           # log_of (dispatch v sys rootDir new_response (Path r) sa)
           @ [LogComplete (Method r) (Path r) d]"
    using handler_log [OF assms(1)] by blast
  then show ?thesis
    by (simp add: handler_resp [OF assms(1)] dispatch_file [OF assms(2,3,4)]
        sendFile_open_failed [OF assms(5)] StatusNotFound_def)
qed

theorem second_open_failure_witness:
  "status (resp_of (handler EN (script_os vanished_events) ''/srv/share'' (GET ''/report 1.txt'') 0))
     = Some 404
   \<and> body (resp_of (handler EN (script_os vanished_events) ''/srv/share'' (GET ''/report 1.txt'') 0))
     = ''404 Not Found\<newline>''
   \<and> LogSendOpenError ''no such file or directory''
       \<in> set (log_of (handler EN (script_os vanished_events) ''/srv/share'' (GET ''/report 1.txt'') 0))"
  using second_open_failure [OF vanished_events_run(1,2,3) a_file_fields(1)
      vanished_events_run(4), where rootDir = "''/srv/share''" and r = "GET ''/report 1.txt''" and v = EN]
  by (simp add: msg_not_found_def)

section \<open>Error responses\<close>

text \<open>
  C5 (the error responses of the dispatcher). When opening the resolved path
  fails, the response is 404 with the not-found message and the error is logged.
  When the open succeeds and \<open>Stat\<close> fails, the response is 500 with the
  internal-error message (and the error is logged). In the remaining case, where
  both succeed, the response is the one that \<open>listDir\<close> or \<open>sendFile\<close> writes: the
  dispatcher produces no other response of its own.
\<close>

theorem dispatcher_error_responses:
  assumes "time_Now sys s = (ta, sa)"
  shows "(os_Open sys (fullPath rootDir (Path r)) sa = (Inl err, sb) \<longrightarrow>
            status (resp_of (handler v sys rootDir r s)) = Some 404
          \<and> body (resp_of (handler v sys rootDir r s)) = msg_not_found v @ ''\<newline>''
          \<and> LogOpenFailed err \<in> set (log_of (handler v sys rootDir r s)))
       \<and> (os_Open sys (fullPath rootDir (Path r)) sa = (Inr fd, sb)
            \<and> file_Stat sys fd sb = (Inl err, sc) \<longrightarrow>
            status (resp_of (handler v sys rootDir r s)) = Some 500
          \<and> body (resp_of (handler v sys rootDir r s)) = msg_stat_failed v @ ''\<newline>''
          \<and> LogStatFailed err \<in> set (log_of (handler v sys rootDir r s)))
       \<and> (os_Open sys (fullPath rootDir (Path r)) sa = (Inr fd, sb)
            \<and> file_Stat sys fd sb = (Inr fi, sc) \<longrightarrow>
            resp_of (handler v sys rootDir r s)
            = WriteHeader 200
                (if fi_IsDir fi
                 then resp_of (listDir v sys new_response (fullPath rootDir (Path r))
                                 (cleanedPath (Path r)) sc)
                 else resp_of (sendFile v sys new_response (fullPath rootDir (Path r))
                                 (fi_Name fi) (fi_Size fi) sc)))"
proof (intro conjI impI)
  assume o: "os_Open sys (fullPath rootDir (Path r)) sa = (Inl err, sb)"
  show "status (resp_of (handler v sys rootDir r s)) = Some 404"
    by (simp add: handler_resp [OF assms] dispatch_open_failed [OF o] StatusNotFound_def)
  show "body (resp_of (handler v sys rootDir r s)) = msg_not_found v @ ''\<newline>''"
    by (simp add: handler_resp [OF assms] dispatch_open_failed [OF o])
  show "LogOpenFailed err \<in> set (log_of (handler v sys rootDir r s))"
    by (rule handler_log_mem [OF assms]) (simp add: dispatch_open_failed [OF o])
next
  assume "os_Open sys (fullPath rootDir (Path r)) sa = (Inr fd, sb)
            \<and> file_Stat sys fd sb = (Inl err, sc)"
  then have o: "os_Open sys (fullPath rootDir (Path r)) sa = (Inr fd, sb)"
    and t: "file_Stat sys fd sb = (Inl err, sc)" by simp_all
  show "status (resp_of (handler v sys rootDir r s)) = Some 500"
    by (simp add: handler_resp [OF assms] dispatch_stat_failed [OF o t]
        StatusInternalServerError_def)
  show "body (resp_of (handler v sys rootDir r s)) = msg_stat_failed v @ ''\<newline>''"
    by (simp add: handler_resp [OF assms] dispatch_stat_failed [OF o t])
  show "LogStatFailed err \<in> set (log_of (handler v sys rootDir r s))"
    by (rule handler_log_mem [OF assms]) (simp add: dispatch_stat_failed [OF o t])
next
  assume "os_Open sys (fullPath rootDir (Path r)) sa = (Inr fd, sb)
            \<and> file_Stat sys fd sb = (Inr fi, sc)"
  then have o: "os_Open sys (fullPath rootDir (Path r)) sa = (Inr fd, sb)"
    and t: "file_Stat sys fd sb = (Inr fi, sc)" by simp_all
  show "resp_of (handler v sys rootDir r s)
        = WriteHeader 200
            (if fi_IsDir fi
             then resp_of (listDir v sys new_response (fullPath rootDir (Path r))
                             (cleanedPath (Path r)) sc)
             else resp_of (sendFile v sys new_response (fullPath rootDir (Path r))
                             (fi_Name fi) (fi_Size fi) sc))"
    by (cases "fi_IsDir fi")
       (simp_all add: handler_resp [OF assms] dispatch_dir [OF o t] dispatch_file [OF o t])
qed

theorem dispatcher_error_responses_witness:
  "status (resp_of (handler EN (script_os missing_events) ''/srv/share'' (GET ''/nothing'') 0))
     = Some 404
   \<and> LogOpenFailed ''no such file or directory''
       \<in> set (log_of (handler EN (script_os missing_events) ''/srv/share'' (GET ''/nothing'') 0))
   \<and> status (resp_of (handler EN (script_os stat_failed_events) ''/srv/share'' (GET ''/x'') 0))
     = Some 500
   \<and> resp_of (handler EN (script_os file_events) ''/srv/share'' (GET ''/report 1.txt'') 0)
     = WriteHeader 200 (resp_of (sendFile EN (script_os file_events) new_response
         (fullPath ''/srv/share'' ''/report 1.txt'') ''report 1.txt'' 5 3))"
proof -
  note a = dispatcher_error_responses [where v = EN and rootDir = "''/srv/share''"
      and r = "GET ''/nothing''", OF missing_events_run(1), THEN conjunct1, THEN mp,
      OF missing_events_run(2)]
  note b = dispatcher_error_responses [where v = EN and rootDir = "''/srv/share''"
      and r = "GET ''/x''", OF stat_failed_events_run(1), THEN conjunct2, THEN conjunct1,
      THEN mp, OF conjI [OF stat_failed_events_run(2,3)]]
  note c = dispatcher_error_responses [where v = EN and rootDir = "''/srv/share''"
      and r = "GET ''/report 1.txt''", OF file_events_run(1), THEN conjunct2, THEN conjunct2,
      THEN mp, OF conjI [OF file_events_run(2,3)]]
  show ?thesis
    using a b c by (simp add: a_file_def)
qed

text \<open>
  C6 (a directory that cannot be read). When \<open>os.ReadDir\<close> fails, the response has
  status 403 in the English variant and 500 in the Chinese one, the error is
  logged, and no listing is rendered: the body is the plain-text error message,
  which contains no markup.
\<close>

theorem unreadable_directory:
  assumes "time_Now sys s = (ta, sa)"
      and "os_Open sys (fullPath rootDir (Path r)) sa = (Inr fd, sb)"
      and "file_Stat sys fd sb = (Inr fi, sc)"
      and "fi_IsDir fi"
      and "os_ReadDir sys (fullPath rootDir (Path r)) sc = (Inl err, sd)"
  shows "status (resp_of (handler v sys rootDir r s)) = Some (case v of EN \<Rightarrow> 403 | ZH \<Rightarrow> 500)
       \<and> LogDirReadError err \<in> set (log_of (handler v sys rootDir r s))
       \<and> body (resp_of (handler v sys rootDir r s)) = msg_dir_unreadable v @ ''\<newline>''
       \<and> header (resp_of (handler v sys rootDir r s)) ''Content-Type''
           = Some ''text/plain; charset=utf-8''
       \<and> CHR ''<'' \<notin> set (body (resp_of (handler v sys rootDir r s)))"
proof -
  have l: "LogDirReadError err \<in> set (log_of (handler v sys rootDir r s))"
    by (rule handler_log_mem [OF assms(1)])
       (simp add: dispatch_dir [OF assms(2,3,4)] listDir_read_failed [OF assms(5)])
  have m: "CHR ''<'' \<notin> set (msg_dir_unreadable v)"
    by (cases v) (simp_all add: msg_dir_unreadable_def)
  show ?thesis
    using l m
    by (simp add: handler_resp [OF assms(1)] dispatch_dir [OF assms(2,3,4)]
        listDir_read_failed [OF assms(5)] status_dir_unreadable_def StatusForbidden_def
        StatusInternalServerError_def split: variant.splits)
qed

theorem unreadable_directory_witness:
  "status (resp_of (handler EN (script_os unreadable_events) ''/srv/share'' (GET ''/docs'') 0))
     = Some 403
   \<and> status (resp_of (handler ZH (script_os unreadable_events) ''/srv/share'' (GET ''/docs'') 0))
     = Some 500
   \<and> body (resp_of (handler EN (script_os unreadable_events) ''/srv/share'' (GET ''/docs'') 0))
     = ''403 Forbidden\<newline>''
   \<and> LogDirReadError ''permission denied''
       \<in> set (log_of (handler EN (script_os unreadable_events) ''/srv/share'' (GET ''/docs'') 0))"
  using unreadable_directory [OF unreadable_events_run(1,2,3) a_dir_fields
      unreadable_events_run(4), where rootDir = "''/srv/share''" and r = "GET ''/docs''" and v = EN]
    unreadable_directory [OF unreadable_events_run(1,2,3) a_dir_fields
      unreadable_events_run(4), where rootDir = "''/srv/share''" and r = "GET ''/docs''" and v = ZH]
  by (simp add: msg_dir_unreadable_def)

section \<open>\<open>filepath.Clean\<close>, element by element\<close>

text \<open>
  The byte loop of \<open>filepath.Clean\<close> computes what \<open>clean_elements\<close> describes: at
  the start of each element the buffer is the rendering of the elements kept so
  far, and \<open>dotdot\<close> is the length of the rendering of the \<open>..\<close> elements among
  them.
\<close>

lemma elements_not_Nil [simp]: "elements s \<noteq> []"
  by (induction s) (auto split: list.splits)

lemma elements_append_Separator:
  "elements (a @ Separator # b) = elements a @ elements b"
proof (induction a)
  case Nil
  show ?case 
    using elements_not_Nil [of b] by (cases "elements b") simp_all
next
  case (Cons c a)
  show ?case
  proof (cases "c = Separator")
    case True
    with Cons show ?thesis by simp
  next
    case False
    obtain e es where e: "elements a = e # es"
      using elements_not_Nil [of a] by (cases "elements a") auto
    with False Cons show ?thesis by simp
  qed
qed

lemma elements_no_Separator: "Separator \<notin> set s \<Longrightarrow> elements s = [s]"
  by (induction s) auto

lemma strings_Join_snoc:
  "es \<noteq> [] \<Longrightarrow> strings_Join (es @ [e]) = strings_Join es @ Separator # e"
  by (induction es rule: strings_Join.induct) simp_all

text \<open>An element followed by the end of the path or by a separator.\<close>

lemma elements_split:
  assumes "Separator \<notin> set e" and "element_ends r"
  shows "elements (e @ r) = e # tl (elements r)" and "elements r = [] # tl (elements r)"
proof -
  show "elements (e @ r) = e # tl (elements r)"
  proof (cases r)
    case Nil
    with assms show ?thesis by (simp add: elements_no_Separator)
  next
    case (Cons c r')
    with assms have "c = Separator" by (simp add: element_ends_def)
    with Cons assms show ?thesis
      by (simp add: elements_append_Separator elements_no_Separator)
  qed
  show "elements r = [] # tl (elements r)"
    using assms(2) by (cases r) (simp_all add: element_ends_def)
qed

lemma takeWhile_dropWhile_ends:
  "element_ends (dropWhile (\<lambda>x. x \<noteq> Separator) p)"
  "Separator \<notin> set (takeWhile (\<lambda>x. x \<noteq> Separator) p)"
proof -
  show "element_ends (dropWhile (\<lambda>x. x \<noteq> Separator) p)"
    by (induction p) (simp_all add: element_ends_def)
  show "Separator \<notin> set (takeWhile (\<lambda>x. x \<noteq> Separator) p)"
    by (induction p) auto
qed

text \<open>Lengths of rendered buffers.\<close>

lemma length_strings_Join:
  "length (strings_Join es) = sum_list (map length es) + (length es - 1)"
  by (induction es rule: strings_Join.induct) simp_all

lemma render_Nil: "render rooted [] = (if rooted then [Separator] else [])"
  by (simp add: render_def)

lemma render_Cons:
  "render rooted (e # out) = (if out = [] then render rooted [] @ e
                              else render rooted out @ Separator # e)"
  by (simp add: render_def strings_Join_snoc)

lemma length_render_dotdots: "length (render rooted (dotdots out)) \<le> length (render rooted out)"
proof (induction out)
  case Nil
  show ?case by (simp add: dotdots_def)
next
  case (Cons e out)
  show ?case
  proof (cases "e = ''..''")
    case True
    then have d: "dotdots (e # out) = e # dotdots out" by (simp add: dotdots_def)
    have "dotdots out = [] \<or> out \<noteq> []" by (auto simp: dotdots_def)
    then show ?thesis
      using Cons unfolding d render_Cons by (auto simp: render_Nil)
  next
    case False
    then have d: "dotdots (e # out) = dotdots out" by (simp add: dotdots_def)
    show ?thesis
      using Cons unfolding d render_Cons
      by (cases "out = []") (auto simp: render_Nil dotdots_def)
  qed
qed

text \<open>Removing the last element of the buffer.\<close>

lemma backtrack_to_Separator:
  assumes "Separator \<notin> set e" and "dd \<le> length p"
  shows "backtrack dd (p @ Separator # e) = p"
  using assms
proof (induction e rule: rev_induct)
  case Nil
  show ?case by (subst backtrack.simps) (simp add: butlast_append)
next
  case (snoc x e)
  then have "backtrack dd (p @ Separator # e @ [x]) = backtrack dd (p @ Separator # e)"
    by (subst backtrack.simps) (auto simp: butlast_append)
  with snoc show ?case by simp
qed

lemma backtrack_to_dotdot:
  assumes "Separator \<notin> set e" and "e \<noteq> []"
  shows "backtrack (length p) (p @ e) = p"
  using assms
proof (induction e rule: rev_induct)
  case Nil
  then show ?case by simp
next
  case (snoc x e)
  show ?case
  proof (cases "e = []")
    case True
    then show ?thesis by (subst backtrack.simps) simp
  next
    case False
    have "backtrack (length p) (p @ e @ [x]) = backtrack (length p) (p @ e)"
      using snoc.prems False
      by (subst backtrack.simps) (auto simp: butlast_append)
    with snoc False show ?thesis by simp
  qed
qed

lemma takeWhile_Nil_ends:
  "takeWhile (\<lambda>x. x \<noteq> Separator) cs = [] \<longleftrightarrow> element_ends cs"
  by (cases cs) (simp_all add: element_ends_def)

lemma takeWhile_dot:
  assumes "takeWhile (\<lambda>x. x \<noteq> Separator) cs = ''.''"
  shows "take 1 cs = ''.''" and "element_ends (tl cs)"
proof -
  from assms obtain d ds where cs: "cs = d # ds" by (cases cs) auto
  with assms have d: "d = CHR ''.''" and t: "takeWhile (\<lambda>x. x \<noteq> Separator) ds = []"
    by (auto split: if_splits)
  show "take 1 cs = ''.''" using cs d by simp
  show "element_ends (tl cs)" using cs t by (simp add: takeWhile_Nil_ends)
qed

lemma dotdots_all:
  assumes "kept st" and "\<not> can_backtrack st"
  shows "dotdots st = st"
proof (cases st)
  case Nil
  then show ?thesis by (simp add: dotdots_def)
next
  case (Cons e st')
  with assms(2) have e: "e = ''..''" by (simp add: can_backtrack_def)
  with assms(1) Cons have "set st' \<subseteq> {''..''}" by simp
  then have "filter (\<lambda>e. e = ''..'') st' = st'"
    by (intro filter_True) auto
  with Cons e show ?thesis by (simp add: dotdots_def)
qed

lemma render_longer:
  assumes "e \<noteq> []"
  shows "length (render rooted out) < length (render rooted (e # out))"
  using assms by (cases "out = []") (simp_all add: render_Cons)

lemma buffer_can_backtrack:
  assumes "buffer rooted st out dd"
  shows "length out > dd \<longleftrightarrow> can_backtrack st"
proof (cases "can_backtrack st")
  case True
  then obtain e st' where st: "st = e # st'" and e: "e \<noteq> ''..''"
    by (cases st) (auto simp: can_backtrack_def)
  have ne: "e \<noteq> []" using assms st by (simp add: buffer_def)
  have "dd = length (render rooted (dotdots st'))"
    using assms st e by (simp add: buffer_def dotdots_def)
  also have "\<dots> \<le> length (render rooted st')" by (rule length_render_dotdots)
  also have "\<dots> < length (render rooted st)" unfolding st using ne by (rule render_longer)
  finally show ?thesis using True assms by (simp add: buffer_def)
next
  case False
  have "dotdots st = st"
    using assms False by (intro dotdots_all) (simp_all add: buffer_def)
  then show ?thesis using False assms by (simp add: buffer_def)
qed

lemma buffer_pop:
  assumes "buffer rooted st out dd" and "can_backtrack st"
  shows "buffer rooted (tl st) (backtrack dd out) dd"
proof -
  from assms(2) obtain e st' where st: "st = e # st'" and e: "e \<noteq> ''..''"
    by (cases st) (auto simp: can_backtrack_def)
  have k: "kept st'" and fr: "\<forall>x \<in> set st'. Separator \<notin> set x" and ef: "Separator \<notin> set e"
    and ne: "e \<noteq> []" and r: "rooted \<longrightarrow> ''..'' \<notin> set st'"
    using assms(1) st by (simp_all add: buffer_def)
  have dd: "dd = length (render rooted (dotdots st'))"
    using assms(1) st e by (simp add: buffer_def dotdots_def)
  have out: "out = render rooted (e # st')"
    using assms(1) st by (simp add: buffer_def)
  have "backtrack dd out = render rooted st'"
  proof (cases "st' = []")
    case True
    then have "dd = length (render rooted [])" using dd by (simp add: dotdots_def)
    then show ?thesis
      unfolding out render_Cons using True ef ne by (simp add: backtrack_to_dotdot)
  next
    case False
    have "dd \<le> length (render rooted st')"
      unfolding dd by (rule length_render_dotdots)
    then show ?thesis
      unfolding out render_Cons using False ef by (simp add: backtrack_to_Separator)
  qed
  then show ?thesis
    using k fr r dd st by (simp add: buffer_def)
qed

lemma buffer_push_dotdot:
  assumes "buffer False st out dd" and "\<not> can_backtrack st"
  shows "buffer False (''..'' # st) ((if out \<noteq> [] then out @ [Separator] else out) @ ''..'')
           (length ((if out \<noteq> [] then out @ [Separator] else out) @ ''..''))"
proof -
  have all: "dotdots st = st"
    using assms by (intro dotdots_all) (simp_all add: buffer_def)
  then have sub: "set st \<subseteq> {''..''}"
    by (auto simp: dotdots_def filter_id_conv)
  have out: "out = render False st" using assms(1) by (simp add: buffer_def)
  have e: "out \<noteq> [] \<longleftrightarrow> st \<noteq> []"
  proof (cases st)
    case Nil
    then show ?thesis using out by (simp add: render_Nil)
  next
    case (Cons x xs)
    then have "x \<noteq> []" using assms(1) by (simp add: buffer_def)
    then show ?thesis using out Cons render_longer [of x False xs] by auto
  qed
  have r: "render False (''..'' # st) = (if out \<noteq> [] then out @ [Separator] else out) @ ''..''"
    unfolding render_Cons using e out by (simp add: render_Nil)
  have d: "dotdots (''..'' # st) = ''..'' # st"
    using all by (simp add: dotdots_def)
  show ?thesis
    unfolding r [symmetric] using assms(1) sub by (simp add: buffer_def d Separator_def)
qed

lemma buffer_push:
  assumes "buffer rooted st out dd"
      and "e \<noteq> []" and "e \<noteq> ''.''" and "e \<noteq> ''..''" and "Separator \<notin> set e"
  shows "buffer rooted (e # st)
           ((if (rooted \<and> length out \<noteq> 1) \<or> (\<not> rooted \<and> length out \<noteq> 0)
             then out @ [Separator] else out) @ e) dd"
proof -
  have out: "out = render rooted st" using assms(1) by (simp add: buffer_def)
  have l: "(rooted \<and> length out \<noteq> 1) \<or> (\<not> rooted \<and> length out \<noteq> 0) \<longleftrightarrow> st \<noteq> []"
  proof (cases st)
    case Nil
    then show ?thesis using out by (simp add: render_Nil)
  next
    case (Cons x xs)
    then have "x \<noteq> []" using assms(1) by (simp add: buffer_def)
    then have "length (render rooted xs) < length out"
      unfolding out Cons by (rule render_longer)
    moreover have "rooted \<longrightarrow> 1 \<le> length (render rooted xs)"
      by (simp add: render_def)
    ultimately show ?thesis using Cons by auto
  qed
  have r: "render rooted (e # st)
           = (if (rooted \<and> length out \<noteq> 1) \<or> (\<not> rooted \<and> length out \<noteq> 0)
              then out @ [Separator] else out) @ e"
    unfolding render_Cons l using out by (simp add: render_Nil)
  have d: "dotdots (e # st) = dotdots st"
    using assms(4) by (simp add: dotdots_def)
  show ?thesis
    unfolding r [symmetric] using assms by (simp add: buffer_def d)
qed

lemma clean_loop_elements:
  assumes "buffer rooted st out dd"
  shows "clean_loop rooted out dd p = render rooted (foldl (clean_element rooted) st (elements p))"
  using assms
proof (induction rooted out dd p arbitrary: st rule: clean_loop.induct)
  case (1 rooted out dotdot)
  then show ?case
    by (simp add: clean_loop.simps clean_element_def buffer_def)
next
  case (2 rooted out dotdot c cs)
  note inv = "2.prems"
  let ?f = "clean_element rooted"
  show ?case
  proof (cases "c = Separator")
    case True
    have "clean_loop rooted out dotdot (c # cs) = clean_loop rooted out dotdot cs"
      using True by (simp add: clean_loop.simps)
    also have "\<dots> = render rooted (foldl ?f st (elements cs))"
      using True inv by (rule "2.IH"(1))
    also have "foldl ?f st (elements cs) = foldl ?f st (elements (c # cs))"
      using True by (simp add: clean_element_def)
    finally show ?thesis .
  next
    case sep: False
    show ?thesis
    proof (cases "c = CHR ''.'' \<and> element_ends cs")
      case True
      have el: "elements (c # cs) = ''.'' # tl (elements cs)" "elements cs = [] # tl (elements cs)"
        using elements_split [of "''.''" cs] True by (simp_all add: Separator_def)
      have "clean_loop rooted out dotdot (c # cs) = clean_loop rooted out dotdot cs"
        using sep True by (simp add: clean_loop.simps)
      also have "\<dots> = render rooted (foldl ?f st (elements cs))"
        using sep True inv by (rule "2.IH"(2))
      also have "foldl ?f st (elements cs) = foldl ?f st (tl (elements cs))"
        by (subst el(2)) (simp add: clean_element_def)
      also have "\<dots> = foldl ?f st (elements (c # cs))"
        unfolding el(1) by (simp add: clean_element_def)
      finally show ?thesis .
    next
      case dot: False
      show ?thesis
      proof (cases "c = CHR ''.'' \<and> take 1 cs = ''.'' \<and> element_ends (tl cs)")
        case True
        then obtain ds where cs: "cs = CHR ''.'' # ds" and ds: "element_ends ds"
          by (cases cs) auto
        have el: "elements (c # cs) = ''..'' # tl (elements ds)"
          "elements ds = [] # tl (elements ds)"
          using elements_split [of "''..''" ds] True cs ds by (simp_all add: Separator_def)
        have fold: "foldl ?f st (elements (c # cs)) = foldl ?f (?f st ''..'') (elements ds)"
          unfolding el(1) by (subst (2) el(2)) (simp add: clean_element_def)
        show ?thesis
        proof (cases "length out > dotdot")
          case bt: True
          then have cb: "can_backtrack st"
            using buffer_can_backtrack [OF inv] by simp
          have "clean_loop rooted out dotdot (c # cs)
                = clean_loop rooted (backtrack dotdot out) dotdot (tl cs)"
            using sep dot True bt by (simp add: clean_loop.simps)
          also have "\<dots> = render rooted (foldl ?f (tl st) (elements (tl cs)))"
            using sep dot True bt buffer_pop [OF inv cb] by (rule "2.IH"(3))
          also have "foldl ?f (tl st) (elements (tl cs)) = foldl ?f st (elements (c # cs))"
            unfolding fold using cb cs by (simp add: clean_element_def)
          finally show ?thesis .
        next
          case nbt: False
          then have ncb: "\<not> can_backtrack st"
            using buffer_can_backtrack [OF inv] by simp
          show ?thesis
          proof (cases rooted)
            case False
            let ?out = "(if out \<noteq> [] then out @ [Separator] else out) @ ''..''"
            have "clean_loop rooted out dotdot (c # cs)
                  = clean_loop rooted ?out (length ?out) (tl cs)"
              using sep dot True nbt False by (simp add: clean_loop.simps)
            also have "\<dots> = render rooted (foldl ?f (''..'' # st) (elements (tl cs)))"
              using sep dot True nbt False
            proof (rule "2.IH"(4))
              show "buffer rooted (''..'' # st) ?out (length ?out)"
                using buffer_push_dotdot [OF _ ncb] inv False by simp
            qed
            also have "foldl ?f (''..'' # st) (elements (tl cs)) = foldl ?f st (elements (c # cs))"
              unfolding fold using ncb cs False by (simp add: clean_element_def)
            finally show ?thesis .
          next
            case rt: True
            have nr: "\<not> \<not> rooted" using rt by simp
            have "clean_loop rooted out dotdot (c # cs) = clean_loop rooted out dotdot (tl cs)"
              using sep dot True nbt rt by (simp add: clean_loop.simps)
            also have "\<dots> = render rooted (foldl ?f st (elements (tl cs)))"
              using sep dot True nbt nr inv by (rule "2.IH"(5))
            also have "foldl ?f st (elements (tl cs)) = foldl ?f st (elements (c # cs))"
              unfolding fold using ncb cs rt by (simp add: clean_element_def)
            finally show ?thesis .
          qed
        qed
      next
        case name: False
        define e where "e = takeWhile (\<lambda>x. x \<noteq> Separator) (c # cs)"
        define r where "r = dropWhile (\<lambda>x. x \<noteq> Separator) (c # cs)"
        have p: "c # cs = e @ r" by (simp add: e_def r_def)
        have ec: "e = c # takeWhile (\<lambda>x. x \<noteq> Separator) cs"
          using sep by (simp add: e_def)
        have e1: "e \<noteq> []" using ec by simp
        have ef: "Separator \<notin> set e"
          unfolding e_def by (rule takeWhile_dropWhile_ends)
        have re: "element_ends r"
          unfolding r_def by (rule takeWhile_dropWhile_ends)
        have e2: "e \<noteq> ''.''"
        proof
          assume "e = ''.''"
          then have "c = CHR ''.''" "takeWhile (\<lambda>x. x \<noteq> Separator) cs = []"
            using ec by simp_all
          then show False using dot by (simp add: takeWhile_Nil_ends)
        qed
        have e3: "e \<noteq> ''..''"
        proof
          assume "e = ''..''"
          then have "c = CHR ''.''" "takeWhile (\<lambda>x. x \<noteq> Separator) cs = ''.''"
            using ec by simp_all
          then show False using name takeWhile_dot [of cs] by simp
        qed
        let ?out = "(if (rooted \<and> length out \<noteq> 1) \<or> (\<not> rooted \<and> length out \<noteq> 0)
                     then out @ [Separator] else out) @ e"
        have el: "elements (c # cs) = e # tl (elements r)" "elements r = [] # tl (elements r)"
          unfolding p using elements_split [OF ef re] by simp_all
        have "clean_loop rooted out dotdot (c # cs) = clean_loop rooted ?out dotdot r"
          unfolding e_def r_def using sep dot name
          by (subst clean_loop.simps) (simp only: if_False)
        also have "\<dots> = render rooted (foldl ?f (e # st) (elements r))"
          unfolding e_def r_def using sep dot name
        proof (rule "2.IH"(6))
          show "buffer rooted (takeWhile (\<lambda>x. x \<noteq> Separator) (c # cs) # st)
            ((if (rooted \<and> length out \<noteq> 1) \<or> (\<not> rooted \<and> length out \<noteq> 0)
              then out @ [Separator] else out) @ takeWhile (\<lambda>x. x \<noteq> Separator) (c # cs)) dotdot"
            using buffer_push [OF inv e1 e2 e3 ef] by (simp only: e_def)
        qed
        also have "foldl ?f (e # st) (elements r) = foldl ?f (e # st) (tl (elements r))"
          by (subst el(2)) (simp add: clean_element_def)
        also have "\<dots> = foldl ?f st (elements (c # cs))"
          unfolding el(1) using e1 e2 e3 by (simp add: clean_element_def)
        finally show ?thesis .
      qed
    qed
  qed
qed

lemma buffer_start:
  "buffer True [] [Separator] 1" "buffer False [] [] 0"
  by (simp_all add: buffer_def render_def dotdots_def)

lemma filepath_Clean_elements: "filepath_Clean path = clean_elements path"
proof (cases path)
  case Nil
  then show ?thesis by (simp add: filepath_Clean_def clean_elements_def is_rooted_def clean_element_def)
next
  case (Cons c cs)
  show ?thesis
  proof (cases "c = Separator")
    case True
    have "foldl (clean_element True) [] (elements path)
          = foldl (clean_element True) [] (elements cs)"
      using Cons True by (simp add: clean_element_def)
    then show ?thesis
      using Cons True clean_loop_elements [OF buffer_start(1), of cs]
      by (simp add: filepath_Clean_def clean_elements_def is_rooted_def render_def Let_def)
  next
    case False
    then show ?thesis
      using Cons clean_loop_elements [OF buffer_start(2), of path]
      by (simp add: filepath_Clean_def clean_elements_def is_rooted_def render_def Let_def)
  qed
qed

section \<open>Cleaned paths\<close>

text \<open>
  What \<open>filepath.Clean\<close> returns is never empty, and cleaning a cleaned path
  again gives back its elements. Hence a cleaned path other than \<open>.\<close>, joined
  with an entry name, is a path with a separator in it.
\<close>

lemma elements_free: "e \<in> set (elements s) \<Longrightarrow> Separator \<notin> set e"
proof (induction s arbitrary: e)
  case Nil
  then show ?case by simp
next
  case (Cons c s)
  obtain x xs where x: "elements s = x # xs"
    using elements_not_Nil [of s] by (cases "elements s") auto
  show ?case
  proof (cases "c = Separator")
    case True
    with Cons show ?thesis by auto
  next
    case False
    with Cons.prems x have "e = c # x \<or> e \<in> set xs" by simp
    then show ?thesis
      using Cons.IH [of x] Cons.IH [of e] x False by auto
  qed
qed

lemma elements_strings_Join:
  assumes "es \<noteq> []" and "\<forall>e \<in> set es. Separator \<notin> set e"
  shows "elements (strings_Join es) = es"
  using assms
proof (induction es rule: rev_induct)
  case Nil
  then show ?case by simp
next
  case (snoc e es)
  show ?case
  proof (cases "es = []")
    case True
    with snoc.prems show ?thesis by (simp add: elements_no_Separator)
  next
    case False
    with snoc show ?thesis
      by (simp add: strings_Join_snoc elements_append_Separator elements_no_Separator)
  qed
qed

lemma kept_clean_element: "kept out \<Longrightarrow> kept (clean_element rooted out e)"
  by (cases out) (auto simp: clean_element_def can_backtrack_def split: if_splits)

lemma kept_foldl: "kept out \<Longrightarrow> kept (foldl (clean_element rooted) out es)"
  by (induction es arbitrary: out) (simp_all add: kept_clean_element)

lemma clean_element_free:
  assumes "\<forall>x \<in> set out. Separator \<notin> set x" and "Separator \<notin> set e"
  shows "\<forall>x \<in> set (clean_element rooted out e). Separator \<notin> set x"
  using assms
  by (cases out) (auto simp: clean_element_def Separator_def split: if_splits)

lemma foldl_clean_free:
  assumes "\<forall>x \<in> set out. Separator \<notin> set x" and "\<forall>e \<in> set es. Separator \<notin> set e"
  shows "\<forall>x \<in> set (foldl (clean_element rooted) out es). Separator \<notin> set x"
  using assms
proof (induction es arbitrary: out)
  case Nil
  then show ?case by simp
next
  case (Cons e es)
  have "\<forall>x \<in> set (clean_element rooted out e). Separator \<notin> set x"
    using Cons.prems by (intro clean_element_free) simp_all
  then show ?case using Cons.IH Cons.prems(2) by simp
qed

lemma reclean_kept: "kept out \<Longrightarrow> foldl (clean_element False) [] (rev out) = out"
proof (induction out)
  case Nil
  show ?case by simp
next
  case (Cons e out)
  then have "foldl (clean_element False) [] (rev (e # out)) = clean_element False out e"
    by simp
  also have "\<dots> = e # out"
    using Cons.prems by (cases out) (auto simp: clean_element_def can_backtrack_def)
  finally show ?case .
qed

lemma strings_Join_has_Separator:
  "es \<noteq> [] \<Longrightarrow> Separator \<in> set (strings_Join (es @ [e]))"
  by (simp add: strings_Join_snoc)

lemma filepath_Clean_not_Nil [simp]: "filepath_Clean p \<noteq> []"
  by (simp add: filepath_Clean_elements clean_elements_def Let_def)

lemma is_rooted_append: "c \<noteq> [] \<Longrightarrow> is_rooted (c @ d) = is_rooted c"
  by (cases c) (simp_all add: is_rooted_def)

lemma Clean_child_has_Separator:
  assumes c: "c = filepath_Clean q" and nr: "c \<noteq> ''.''" and n: "is_entry_name name"
  shows "Separator \<in> set (filepath_Clean (c @ Separator # name))"
proof (cases "is_rooted c")
  case True
  then have "is_rooted (c @ Separator # name)"
    using c by (simp add: is_rooted_append)
  then show ?thesis by (simp add: filepath_Clean_elements clean_elements_def Let_def)
next
  case False
  have cne: "c \<noteq> []" using c by simp
  define out where "out = foldl (clean_element (is_rooted q)) [] (elements q)"
  have k: "kept out"
    unfolding out_def by (rule kept_foldl) simp
  have fr: "\<forall>x \<in> set out. Separator \<notin> set x"
    unfolding out_def by (rule foldl_clean_free) (simp_all add: elements_free)
  have nq: "\<not> is_rooted q"
  proof
    assume "is_rooted q"
    then have "is_rooted c" using c by (simp add: filepath_Clean_elements clean_elements_def Let_def out_def is_rooted_def)
    with False show False by simp
  qed
  have cj: "c = strings_Join (rev out)" and one: "out \<noteq> []"
    using c nr nq by (auto simp: filepath_Clean_elements clean_elements_def Let_def out_def split: if_splits)
  have el: "elements c = rev out"
    unfolding cj using one fr by (intro elements_strings_Join) simp_all
  have nm: "elements name = [name]"
    using n by (simp add: is_entry_name_def elements_no_Separator)
  have "foldl (clean_element False) [] (elements (c @ Separator # name))
        = clean_element False out name"
    using k by (simp add: elements_append_Separator el nm reclean_kept)
  also have "\<dots> = name # out"
    using n by (simp add: clean_element_def is_entry_name_def)
  finally have "filepath_Clean (c @ Separator # name) = strings_Join (rev out @ [name])"
    using False cne one
    by (simp add: filepath_Clean_elements clean_elements_def Let_def is_rooted_append strings_Join_snoc)
  then show ?thesis
    using one by (simp add: strings_Join_has_Separator)
qed

section \<open>Directory listings\<close>

lemma root_events_run:
  "time_Now (script_os root_events) 0 = (0, 1)"
  "os_Open (script_os root_events) p 1 = (Inr 3, 2)"
  "file_Stat (script_os root_events) 3 2 = (Inr a_dir, 3)"
  "os_ReadDir (script_os root_events) p 3 = (Inr [], 4)"
  by (simp_all add: script_os_def event_at_def root_events_def)

lemma colon_events_run:
  "time_Now (script_os colon_events) 0 = (0, 1)"
  "os_Open (script_os colon_events) p 1 = (Inr 3, 2)"
  "file_Stat (script_os colon_events) 3 2 = (Inr a_dir, 3)"
  "os_ReadDir (script_os colon_events) p 3 = (Inr [\<lparr>de_Name = ''a:b'', de_IsDir = False\<rparr>], 4)"
  by (simp_all add: script_os_def event_at_def colon_events_def)

lemma handler_listing:
  assumes "time_Now sys s = (ta, sa)"
      and "os_Open sys (fullPath rootDir (Path r)) sa = (Inr fd, sb)"
      and "file_Stat sys fd sb = (Inr fi, sc)"
      and "fi_IsDir fi"
      and "os_ReadDir sys (fullPath rootDir (Path r)) sc = (Inr files, sd)"
  shows "body (resp_of (handler v sys rootDir r s))
         = Execute (dirListTemplate v) (list_data (cleanedPath (Path r)) files)"
    and "status (resp_of (handler v sys rootDir r s)) = Some 200"
    and "header (resp_of (handler v sys rootDir r s)) ''Content-Type''
         = Some ''text/html; charset=utf-8''"
  by (simp_all add: handler_resp [OF assms(1)] dispatch_dir [OF assms(2,3,4)]
      listDir_listed [OF assms(5)])

lemma cleanedPath_not_Nil: "cleanedPath reqPath \<noteq> []"
  by (simp add: cleanedPath_def)

text \<open>
  C2 (no parent link in the listing of the root). The listing of the root does
  contain a parent link. \<open>listDir\<close> shows the link when \<open>relPath\<close> is not the empty
  string, but the path it is given is a cleaned path, and \<open>filepath.Clean\<close> never
  returns the empty string: for the request path \<open>/\<close> it returns \<open>.\<close>. So
  \<open>HasParent\<close> holds in every listing, and the page for \<open>/\<close> has the link, with
  the target \<open>.\<close>.
\<close>

theorem root_listing_has_parent_link:
  \<open>cleanedPath ''/'' = ''.''
   \<and> (\<forall>reqPath files. HasParent (list_data (cleanedPath reqPath) files))
   \<and> render_parent (dirListTemplate EN) (list_data (cleanedPath ''/'') [])
       = ''<li><a href=".">.. (Parent Directory)</a></li>''
   \<and> body (resp_of (handler EN (script_os root_events) ''/srv/share'' (GET ''/'') 0))
       = ''\<newline>'' @
         ''<html>\<newline>'' @
         ''<head>\<newline>'' @
         ''    <meta charset="UTF-8">\<newline>'' @
         ''    <title>File Server - .</title>\<newline>'' @
         ''    <style>\<newline>'' @
         ''        li { font-family: monospace; }\<newline>'' @
         ''        dir { color: blue; }   \<newline>'' @
         ''        file { color: green; }  \<newline>'' @
         ''    </style>\<newline>'' @
         ''</head>\<newline>'' @
         ''<body>\<newline>'' @
         ''    <h1>Directory Listing: .</h1>\<newline>'' @
         ''    <ul>\<newline>'' @
         ''        <li><a href=".">.. (Parent Directory)</a></li>\<newline>'' @
         ''        \<newline>'' @
         ''    </ul>\<newline>'' @
         ''</body>\<newline>'' @
         ''</html>\<newline>''\<close>
proof -
  have a: "cleanedPath ''/'' = ''.''"
    by code_simp
  have b: "HasParent (list_data (cleanedPath reqPath) files)" for reqPath files
    by (simp add: list_data_def cleanedPath_not_Nil)
  have c: \<open>render_parent (dirListTemplate EN) (list_data ''.'' [])
       = ''<li><a href=".">.. (Parent Directory)</a></li>''\<close>
    by code_simp
  have d: \<open>Execute (dirListTemplate EN) (list_data ''.'' [])
       = ''\<newline>'' @
         ''<html>\<newline>'' @
         ''<head>\<newline>'' @
         ''    <meta charset="UTF-8">\<newline>'' @
         ''    <title>File Server - .</title>\<newline>'' @
         ''    <style>\<newline>'' @
         ''        li { font-family: monospace; }\<newline>'' @
         ''        dir { color: blue; }   \<newline>'' @
         ''        file { color: green; }  \<newline>'' @
         ''    </style>\<newline>'' @
         ''</head>\<newline>'' @
         ''<body>\<newline>'' @
         ''    <h1>Directory Listing: .</h1>\<newline>'' @
         ''    <ul>\<newline>'' @
         ''        <li><a href=".">.. (Parent Directory)</a></li>\<newline>'' @
         ''        \<newline>'' @
         ''    </ul>\<newline>'' @
         ''</body>\<newline>'' @
         ''</html>\<newline>''\<close>
    by code_simp
  show ?thesis
    using b by (simp add: a c d handler_listing(1) [OF root_events_run(1,2,3) a_dir_fields
          root_events_run(4)])
qed

text \<open>
  The name of an entry is escaped by \<open>html.EscapeString\<close> in \<open>listDir\<close> and again by
  the template, so it never reaches the page as markup; its link is the URL of
  the entry passed through the escapers of the \<open>href\<close> attribute.
\<close>

lemma html_EscapeString_chars:
  assumes "c \<in> set (html_EscapeString s)"
  shows "c \<noteq> CHR ''<'' \<and> c \<noteq> CHR ''>'' \<and> c \<noteq> CHR 0x22 \<and> c \<noteq> CHR 0x27"
proof -
  from assms obtain x where "c \<in> set (html_escape_byte x)"
    by (auto simp: html_EscapeString_def)
  then show ?thesis
    by (auto simp: html_escape_byte_def split: if_splits)
qed

lemma htmlEscaper_chars:
  assumes "c \<in> set (htmlEscaper s)"
  shows "c \<noteq> CHR ''<'' \<and> c \<noteq> CHR ''>'' \<and> c \<noteq> CHR 0x22 \<and> c \<noteq> CHR 0x27"
proof -
  from assms obtain x where "c \<in> set (htmlReplacementTable x)"
    by (auto simp: htmlEscaper_def)
  then show ?thesis
    by (auto simp: htmlReplacementTable_def split: if_splits)
qed

lemma display_name_rendering:
  "render_file t (file_entry relPath file)
   = tx_item_pre t @ hrefEscaper (URL (file_entry relPath file)) @ tx_item_mid t
     @ (if de_IsDir file
        then tx_dir_pre t @ htmlEscaper (html_EscapeString (de_Name file)) @ tx_dir_post t
        else tx_file_pre t @ htmlEscaper (html_EscapeString (de_Name file)) @ tx_file_post t)
     @ tx_item_post t"
  "CHR ''<'' \<notin> set (htmlEscaper (html_EscapeString name))"
  "CHR ''>'' \<notin> set (htmlEscaper (html_EscapeString name))"
  "CHR 0x22 \<notin> set (htmlEscaper (html_EscapeString name))"
  "CHR 0x27 \<notin> set (htmlEscaper (html_EscapeString name))"
  using htmlEscaper_chars [of _ "html_EscapeString name"]
  by (auto simp: render_file_def file_entry_def)

text \<open>
  C7 (names and link targets of the entries of a listing). The link target
  written to the page is not always the URL-escaped relative path.
  \<open>url.PathEscape\<close> leaves a colon as it is, and the template's URL filter replaces
  a URL whose text before the first colon is not an allowed scheme: for a file
  named \<open>a:b\<close> in the root, \<open>listDir\<close> computes the URL \<open>a:b\<close> and the page links to
  \<open>#ZgotmplZ\<close>.
\<close>

theorem colon_name_link:
  \<open>file_entry (cleanedPath ''/'') \<lparr>de_Name = ''a:b'', de_IsDir = False\<rparr>
     = \<lparr>URL = ''a:b'', Name = ''a:b'', IsDir = False\<rparr>
   \<and> render_file (dirListTemplate EN)
         (file_entry (cleanedPath ''/'') \<lparr>de_Name = ''a:b'', de_IsDir = False\<rparr>)
       = ''\<newline>            <li><a href="#ZgotmplZ"><file>a:b</file></a></li>\<newline>        ''
   \<and> body (resp_of (handler EN (script_os colon_events) ''/srv/share'' (GET ''/'') 0))
       = ''\<newline>'' @
         ''<html>\<newline>'' @
         ''<head>\<newline>'' @
         ''    <meta charset="UTF-8">\<newline>'' @
         ''    <title>File Server - .</title>\<newline>'' @
         ''    <style>\<newline>'' @
         ''        li { font-family: monospace; }\<newline>'' @
         ''        dir { color: blue; }   \<newline>'' @
         ''        file { color: green; }  \<newline>'' @
         ''    </style>\<newline>'' @
         ''</head>\<newline>'' @
         ''<body>\<newline>'' @
         ''    <h1>Directory Listing: .</h1>\<newline>'' @
         ''    <ul>\<newline>'' @
         ''        <li><a href=".">.. (Parent Directory)</a></li>\<newline>'' @
         ''        \<newline>'' @
         ''            <li><a href="#ZgotmplZ"><file>a:b</file></a></li>\<newline>'' @
         ''        \<newline>'' @
         ''    </ul>\<newline>'' @
         ''</body>\<newline>'' @
         ''</html>\<newline>''\<close>
proof -
  have a: "cleanedPath ''/'' = ''.''"
    by code_simp
  have b: "file_entry ''.'' \<lparr>de_Name = ''a:b'', de_IsDir = False\<rparr>
     = \<lparr>URL = ''a:b'', Name = ''a:b'', IsDir = False\<rparr>"
    by code_simp
  have c: \<open>render_file (dirListTemplate EN) \<lparr>URL = ''a:b'', Name = ''a:b'', IsDir = False\<rparr>
       = ''\<newline>            <li><a href="#ZgotmplZ"><file>a:b</file></a></li>\<newline>        ''\<close>
    by code_simp
  have d: \<open>Execute (dirListTemplate EN) (list_data ''.'' [\<lparr>de_Name = ''a:b'', de_IsDir = False\<rparr>])
       = ''\<newline>'' @
         ''<html>\<newline>'' @
         ''<head>\<newline>'' @
         ''    <meta charset="UTF-8">\<newline>'' @
         ''    <title>File Server - .</title>\<newline>'' @
         ''    <style>\<newline>'' @
         ''        li { font-family: monospace; }\<newline>'' @
         ''        dir { color: blue; }   \<newline>'' @
         ''        file { color: green; }  \<newline>'' @
         ''    </style>\<newline>'' @
         ''</head>\<newline>'' @
         ''<body>\<newline>'' @
         ''    <h1>Directory Listing: .</h1>\<newline>'' @
         ''    <ul>\<newline>'' @
         ''        <li><a href=".">.. (Parent Directory)</a></li>\<newline>'' @
         ''        \<newline>'' @
         ''            <li><a href="#ZgotmplZ"><file>a:b</file></a></li>\<newline>'' @
         ''        \<newline>'' @
         ''    </ul>\<newline>'' @
         ''</body>\<newline>'' @
         ''</html>\<newline>''\<close>
    by code_simp
  show ?thesis
    by (simp add: a b c d handler_listing(1) [OF colon_events_run(1,2,3) a_dir_fields
          colon_events_run(4)])
qed
text \<open>
  A URL made by \<open>url.PathEscape\<close> passes \<open>urlNormalizer\<close> unchanged, and \<open>attrEscaper\<close>
  keeps \<open>%2F\<close> and adds no separator.
\<close>

lemma escape_byte_Separator: "escape_byte Separator = ''%2F''"
  by code_simp

lemma shouldEscape_Separator: "shouldEscape Separator"
  by code_simp

lemma url_PathEscape_append:
  "url_PathEscape (a @ b) = url_PathEscape a @ url_PathEscape b"
  by (simp add: url_PathEscape_def)

lemma url_PathEscape_Separator:
  assumes "Separator \<in> set s"
  shows "sublist ''%2F'' (url_PathEscape s)"
proof -
  obtain a b where s: "s = a @ Separator # b"
    using assms by (auto simp: in_set_conv_decomp)
  have "url_PathEscape s = url_PathEscape a @ ''%2F'' @ url_PathEscape b"
    unfolding s url_PathEscape_append
    using escape_byte_Separator shouldEscape_Separator by (simp add: url_PathEscape_def)
  then show ?thesis
    unfolding sublist_def by blast
qed

lemma ishex_kept:
  assumes "ishex h"
  shows "is_lower h \<or> is_upper h \<or> is_digit h"
  using assms by (auto simp: ishex_def is_lower_def is_upper_def is_digit_def byte_in_def)

lemma not_shouldEscape_kept:
  assumes "\<not> shouldEscape c"
  shows "c \<in> set ''!#$&*+,/:;=?@[]'' \<or> c \<in> set ''-._~'' \<or> is_lower c \<or> is_upper c \<or> is_digit c"
  using assms by (auto simp: shouldEscape_def split: if_splits)

lemma urlNormalizer_kept:
  assumes "is_lower c \<or> is_upper c \<or> is_digit c"
  shows "urlNormalizer (c # cs) = c # urlNormalizer cs"
  using assms by simp

lemma urlNormalizer_PathEscape: "urlNormalizer (url_PathEscape s) = url_PathEscape s"
proof (induction s)
  case Nil
  show ?case by (simp add: url_PathEscape_def)
next
  case (Cons c s)
  have step: "url_PathEscape (c # s) = (if shouldEscape c then escape_byte c else [c]) @ url_PathEscape s"
    by (simp add: url_PathEscape_def)
  show ?case
  proof (cases "shouldEscape c")
    case True
    define h where "h = upperhex ! ((of_char c :: nat) div 16)"
    define l where "l = upperhex ! ((of_char c :: nat) mod 16)"
    have hh: "ishex h" "ishex l"
      unfolding h_def l_def by (simp_all add: upperhex_nth of_char_div_mod)
    have e: "url_PathEscape (c # s) = CHR ''%'' # h # l # url_PathEscape s"
      using True by (simp add: step escape_byte_def h_def l_def)
    have "urlNormalizer (CHR ''%'' # h # l # url_PathEscape s)
          = CHR ''%'' # urlNormalizer (h # l # url_PathEscape s)"
      using hh by simp
    also have "\<dots> = CHR ''%'' # h # l # urlNormalizer (url_PathEscape s)"
      using ishex_kept [OF hh(1)] ishex_kept [OF hh(2)] by (simp only: urlNormalizer_kept)
    finally show ?thesis using Cons.IH by (simp add: e)
  next
    case False
    have "urlNormalizer (c # url_PathEscape s) = c # urlNormalizer (url_PathEscape s)"
      using not_shouldEscape_kept [OF False] by auto
    then show ?thesis using False Cons.IH by (simp add: step)
  qed
qed

lemma attrEscaper_append: "attrEscaper (a @ b) = attrEscaper a @ attrEscaper b"
  by (simp add: attrEscaper_def)

lemma attrEscaper_percent_2F: "attrEscaper ''%2F'' = ''%2F''"
  by code_simp

lemma attrEscaper_sublist:
  assumes "sublist ''%2F'' u"
  shows "sublist ''%2F'' (attrEscaper u)"
proof -
  obtain a b where "u = a @ ''%2F'' @ b"
    using assms unfolding sublist_def by blast
  then have "attrEscaper u = attrEscaper a @ ''%2F'' @ attrEscaper b"
    by (simp only: attrEscaper_append attrEscaper_percent_2F)
  then show ?thesis
    unfolding sublist_def by blast
qed

lemma attrEscaper_Separator:
  assumes "Separator \<notin> set u"
  shows "Separator \<notin> set (attrEscaper u)"
  using assms
  by (induction u) (auto simp: attrEscaper_def htmlReplacementTable_def Separator_def)

lemma hrefEscaper_safe:
  assumes "isSafeURL (url_PathEscape p)"
  shows "hrefEscaper (url_PathEscape p) = attrEscaper (url_PathEscape p)"
  using assms by (simp add: hrefEscaper_def urlFilter_def urlNormalizer_PathEscape)

lemma filepath_Join_child:
  "filepath_Join [cleanedPath reqPath, name]
   = filepath_Clean (cleanedPath reqPath @ Separator # name)"
  by (simp add: cleanedPath_not_Nil)

text \<open>
  The URL that \<open>listDir\<close> computes for a child is \<open>url.PathEscape\<close> of the whole
  joined path. For a child of a directory other than the root (the cleaned
  request path is not \<open>.\<close>), whose name is an entry name, this URL contains \<open>%2F\<close>
  and no separator. When the URL passes the template's URL filter, the \<open>href\<close>
  written to the page is this URL with \<open>&\<close> and \<open>+\<close> as character references, and
  it too contains \<open>%2F\<close> and no separator.
\<close>

lemma child_link_percent_2F:
  assumes "cleanedPath reqPath \<noteq> ''.''"
      and "is_entry_name (de_Name file)"
  shows "URL (file_entry (cleanedPath reqPath) file)
           = url_PathEscape (filepath_Join [cleanedPath reqPath, de_Name file])
       \<and> sublist ''%2F'' (URL (file_entry (cleanedPath reqPath) file))
       \<and> Separator \<notin> set (URL (file_entry (cleanedPath reqPath) file))
       \<and> (isSafeURL (URL (file_entry (cleanedPath reqPath) file)) \<longrightarrow>
            hrefEscaper (URL (file_entry (cleanedPath reqPath) file))
              = attrEscaper (URL (file_entry (cleanedPath reqPath) file))
          \<and> sublist ''%2F'' (hrefEscaper (URL (file_entry (cleanedPath reqPath) file)))
          \<and> Separator \<notin> set (hrefEscaper (URL (file_entry (cleanedPath reqPath) file))))"
proof -
  define p where "p = filepath_Join [cleanedPath reqPath, de_Name file]"
  have u: "URL (file_entry (cleanedPath reqPath) file) = url_PathEscape p"
    by (simp add: file_entry_def filepath_ToSlash_def p_def)
  have "Separator \<in> set p"
    unfolding p_def filepath_Join_child
    using assms by (intro Clean_child_has_Separator [where q = "strings_TrimPrefix reqPath ''/''"])
      (simp_all add: cleanedPath_def)
  then have s: "sublist ''%2F'' (url_PathEscape p)"
    by (rule url_PathEscape_Separator)
  have n: "Separator \<notin> set (url_PathEscape p)"
    by (rule url_PathEscape_chars)
  have "url_PathEscape p = url_PathEscape p
       \<and> sublist ''%2F'' (url_PathEscape p)
       \<and> Separator \<notin> set (url_PathEscape p)
       \<and> (isSafeURL (url_PathEscape p) \<longrightarrow>
            hrefEscaper (url_PathEscape p) = attrEscaper (url_PathEscape p)
          \<and> sublist ''%2F'' (hrefEscaper (url_PathEscape p))
          \<and> Separator \<notin> set (hrefEscaper (url_PathEscape p)))"
    using s n by (simp add: hrefEscaper_safe attrEscaper_sublist attrEscaper_Separator)
  then show ?thesis
    unfolding u p_def .
qed

lemma child_link_percent_2F_example:
  "URL (file_entry (cleanedPath ''/docs'') \<lparr>de_Name = ''a+b.txt'', de_IsDir = False\<rparr>)
     = ''docs%2Fa+b.txt''
   \<and> hrefEscaper (URL (file_entry (cleanedPath ''/docs'') \<lparr>de_Name = ''a+b.txt'', de_IsDir = False\<rparr>))
     = ''docs%2Fa&#43;b.txt''
   \<and> sublist ''%2F''
        (hrefEscaper (URL (file_entry (cleanedPath ''/docs'') \<lparr>de_Name = ''a+b.txt'', de_IsDir = False\<rparr>)))"
proof -
  have a: "cleanedPath ''/docs'' \<noteq> ''.''"
    by code_simp
  have b: "is_entry_name (de_Name \<lparr>de_Name = ''a+b.txt'', de_IsDir = False\<rparr>)"
    by code_simp
  have c: "URL (file_entry (cleanedPath ''/docs'') \<lparr>de_Name = ''a+b.txt'', de_IsDir = False\<rparr>)
     = ''docs%2Fa+b.txt''"
    by code_simp
  have d: "isSafeURL ''docs%2Fa+b.txt''"
    by code_simp
  have e: "attrEscaper ''docs%2Fa+b.txt'' = ''docs%2Fa&#43;b.txt''"
    by code_simp
  note t = child_link_percent_2F [OF a b, unfolded c]
  from t d have h: "hrefEscaper ''docs%2Fa+b.txt'' = attrEscaper ''docs%2Fa+b.txt''"
    and s: "sublist ''%2F'' (hrefEscaper ''docs%2Fa+b.txt'')"
    by blast+
  show ?thesis
    unfolding c using h s by (simp only: e simp_thms)
qed

text \<open>
  C9 (the separator in the \<open>href\<close> of a child of a directory other than the root
  is encoded as \<open>%2F\<close>). The \<open>href\<close> of such a child does not always contain
  \<open>%2F\<close>. \<open>listDir\<close> computes the URL with \<open>%2F\<close>, but the template's URL filter
  replaces a URL that it rejects: in the directory \<open>d\<close>, the file \<open>a:b\<close> has the URL
  \<open>d%2Fa:b\<close>, and the \<open>href\<close> written to the page is \<open>#ZgotmplZ\<close>.
\<close>

theorem colon_child_href:
  "cleanedPath ''/d'' \<noteq> ''.''
   \<and> is_entry_name ''a:b''
   \<and> URL (file_entry (cleanedPath ''/d'') \<lparr>de_Name = ''a:b'', de_IsDir = False\<rparr>) = ''d%2Fa:b''
   \<and> hrefEscaper (URL (file_entry (cleanedPath ''/d'') \<lparr>de_Name = ''a:b'', de_IsDir = False\<rparr>))
       = ''#ZgotmplZ''
   \<and> \<not> sublist ''%2F''
        (hrefEscaper (URL (file_entry (cleanedPath ''/d'') \<lparr>de_Name = ''a:b'', de_IsDir = False\<rparr>)))"
  by code_simp

end
